theory Spec2Isabelle
  imports Main
begin

section \<open>The auto-order engine (src/lib/auto-order-engine.ts)\<close>

text \<open>
  A shallow embedding of \<^verbatim>\<open>executeAutoOrders\<close>. The document store is an explicit
  record of collections that is passed through the run and returned updated. A
  transaction body returns the writes it has issued together with its outcome; a thrown
  \<^verbatim>\<open>Error\<close> is \<open>Inl\<close> of its message. Console logging has no effect on the store or
  on the result and is left out.

  Conventions of the embedding:
  \<^item> JavaScript numbers are integers (\<open>int\<close>): stock counts and rupee amounts. The
    \<^verbatim>\<open>itemPrice\<close> and \<^verbatim>\<open>quantity\<close> of an auto order are present and are numbers.
  \<^item> A numeric or boolean field of a user or menu item document that may be missing is
    an \<open>option\<close>; \<open>None\<close> stands for \<^verbatim>\<open>undefined\<close> and \<^verbatim>\<open>null\<close>, which \<^verbatim>\<open>??\<close>
    treats alike.
  \<^item> Fields that the code inspects dynamically (\<^verbatim>\<open>frequency\<close>, \<^verbatim>\<open>customDays\<close>,
    \<^verbatim>\<open>lastExecutedDate\<close>) are untyped values \<open>jsval\<close>.
  \<^item> The ids of the documents that a query returns name a document; a collection holds
    at most one document per id. The \<^verbatim>\<open>userId\<close> and \<^verbatim>\<open>itemId\<close> of an auto order are
    arbitrary strings, and \<^verbatim>\<open>doc\<close> decides whether they name a document.
  \<^item> The clock (\<^verbatim>\<open>getIST(new Date())\<close>, \<^verbatim>\<open>now.toISOString()\<close>), identifier generation
    and the failures of the store are inputs of the run, collected in \<open>env\<close>. The
    calendar arithmetic of \<^verbatim>\<open>getIST\<close> is not part of the embedding.
  \<^item> One run is sequential and nothing else writes to the store while it runs. The
    transaction primitive of the store is taken by its contract: all writes of a body
    that returns are applied together, none of the writes of a body that throws.
\<close>

subsection \<open>Values and constants\<close>

datatype DayOfWeek = Sun | Mon | Tue | Wed | Thu | Fri | Sat

text \<open>The string that a \<^verbatim>\<open>DayOfWeek\<close> is at run time.\<close>

fun day_string :: "DayOfWeek \<Rightarrow> string" where
  "day_string Sun = ''Sun''"
| "day_string Mon = ''Mon''"
| "day_string Tue = ''Tue''"
| "day_string Wed = ''Wed''"
| "day_string Thu = ''Thu''"
| "day_string Fri = ''Fri''"
| "day_string Sat = ''Sat''"

definition WEEKDAYS :: "DayOfWeek list" where
  "WEEKDAYS = [Mon, Tue, Wed, Thu, Fri]"

datatype jsval =
    JUndefined
  | JNull
  | JBool bool
  | JNum int
  | JStr string
  | JArr "jsval list"

text \<open>\<^verbatim>\<open>Array.isArray(v)\<close>\<close>

fun isArray :: "jsval \<Rightarrow> bool" where
  "isArray (JArr xs) = True"
| "isArray v = False"

text \<open>
  \<^verbatim>\<open>v.includes(s)\<close> for a string \<open>s\<close>, on a value that is an array: some element is
  that string. An element that is itself an array is an object and is never equal to a
  string.
\<close>

fun js_includes :: "jsval \<Rightarrow> string \<Rightarrow> bool" where
  "js_includes (JArr xs) s = (JStr s \<in> set xs)"
| "js_includes v s = False"

text \<open>\<^verbatim>\<open>v ?? d\<close> on an optional field.\<close>

definition nullish :: "'a option \<Rightarrow> 'a \<Rightarrow> 'a" where
  "nullish v d = (case v of None \<Rightarrow> d | Some x \<Rightarrow> x)"

text \<open>Template-literal rendering of an integer.\<close>

fun digit_char :: "nat \<Rightarrow> char" where
  "digit_char n = char_of (48 + n)"

fun show_nat :: "nat \<Rightarrow> string" where
  "show_nat n = (if n < 10 then [digit_char n] else show_nat (n div 10) @ [digit_char (n mod 10)])"

definition show_int :: "int \<Rightarrow> string" where
  "show_int i = (if i < 0 then CHR ''-'' # show_nat (nat (- i)) else show_nat (nat i))"

text \<open>The non-ASCII symbols of the source's string literals, as UTF-8 bytes.\<close>

definition rupee :: string where
  "rupee = [CHR 0xE2, CHR 0x82, CHR 0xB9]"

definition em_dash :: string where
  "em_dash = [CHR 0xE2, CHR 0x80, CHR 0x94]"

definition check_mark :: string where
  "check_mark = [CHR 0xE2, CHR 0x9C, CHR 0x85]"

subsection \<open>Document references\<close>

text \<open>
  \<^verbatim>\<open>collection(c).doc(p)\<close> of the store's SDK. The path \<open>p\<close> is rejected with an
  \<^verbatim>\<open>Error\<close> when it is the empty string, when it contains \<^verbatim>\<open>//\<close>, or when, split at
  \<^verbatim>\<open>/\<close> with empty segments dropped, it does not have an odd number of segments (the
  collection and the path together must name a document). Otherwise the reference is
  the document at these segments below the collection; it is represented by the
  segments joined with \<^verbatim>\<open>/\<close>, which for an id without \<^verbatim>\<open>/\<close> is the id itself.
\<close>

fun has_double_slash :: "string \<Rightarrow> bool" where
  "has_double_slash (a # b # cs) =
     ((a = CHR ''/'' \<and> b = CHR ''/'') \<or> has_double_slash (b # cs))"
| "has_double_slash cs = False"

text \<open>\<^verbatim>\<open>p.split('/').filter(segment => segment.length > 0)\<close>, with the segment read so far.\<close>

fun path_segments :: "string \<Rightarrow> string \<Rightarrow> string list" where
  "path_segments seg [] = (if seg = [] then [] else [seg])"
| "path_segments seg (c # cs) =
     (if c = CHR ''/''
      then (if seg = [] then path_segments [] cs else seg # path_segments [] cs)
      else path_segments (seg @ [c]) cs)"

definition split_path :: "string \<Rightarrow> string list" where
  "split_path p = path_segments [] p"

fun join_path :: "string list \<Rightarrow> string" where
  "join_path [] = []"
| "join_path [s] = s"
| "join_path (s # t # ss) = s @ ''/'' @ join_path (t # ss)"

definition valid_doc_path :: "string \<Rightarrow> bool" where
  "valid_doc_path p = (p \<noteq> [] \<and> \<not> has_double_slash p \<and> odd (length (split_path p)))"

definition doc_key :: "string \<Rightarrow> string" where
  "doc_key p = join_path (split_path p)"

text \<open>
  The reference, or the message of the error that is thrown; \<open>pathError p\<close> is the
  message of the SDK for the path \<open>p\<close>.
\<close>

definition doc_ref :: "(string \<Rightarrow> string) \<Rightarrow> string \<Rightarrow> string + string" where
  "doc_ref pathError p =
     (if p = [] \<or> has_double_slash p then Inl (pathError p)
      else if even (length (split_path p)) then Inl (pathError p)
      else Inr (doc_key p))"

subsection \<open>Documents\<close>

record autoOrder =
  ao_userId :: string
  ao_itemId :: string
  ao_itemName :: string
  ao_itemPrice :: int
  ao_quantity :: int
  ao_frequency :: jsval
  ao_customDays :: jsval
  ao_status :: string
  ao_time :: string
  ao_lastExecutedDate :: jsval
  ao_lastExecutedAt :: "string option"
  ao_lastFailedAt :: "string option"
  ao_lastFailureReason :: "string option"
  ao_totalExecutions :: "int option"
  ao_totalFailures :: "int option"
  ao_updatedAt :: "string option"

record user =
  u_walletBalance :: "int option"
  u_name :: "string option"
  u_email :: "string option"
  u_rollNumber :: "string option"

record menuItem =
  mi_quantity :: "int option"
  mi_available :: "bool option"
  mi_updatedAt :: "string option"

record orderItem =
  oi_id :: string
  oi_name :: string
  oi_price :: int
  oi_quantity :: int

record order =
  o_orderId :: string
  o_userId :: string
  o_userName :: string
  o_userEmail :: string
  o_userRollNumber :: string
  o_items :: "orderItem list"
  o_total :: int
  o_paymentMode :: string
  o_status :: string
  o_isAutoOrder :: bool
  o_autoOrderId :: string
  o_createdAt :: string
  o_updatedAt :: string

record walletTransaction =
  wt_userId :: string
  wt_type :: string
  wt_amount :: int
  wt_description :: string
  wt_transactionId :: string
  wt_createdAt :: string

record notification =
  n_userId :: string
  n_orderId :: string
  n_type :: string
  n_title :: string
  n_message :: string
  n_isRead :: bool
  n_createdAt :: string

record execution =
  ex_autoOrderId :: string
  ex_userId :: string
  ex_orderId :: "string option"
  ex_success :: bool
  ex_failureReason :: "string option"
  ex_amountDeducted :: "int option"
  ex_stockBefore :: "int option"
  ex_stockAfter :: "int option"
  ex_executedAt :: string

subsection \<open>The store\<close>

text \<open>
  \<^verbatim>\<open>autoOrders\<close> is kept as a list of (document id, document) so that a query has an
  order; \<^verbatim>\<open>users\<close> and \<^verbatim>\<open>menuItems\<close> are maps from document id. The four collections
  the engine only adds to, under fresh document ids, are lists in order of creation.
\<close>

record store =
  autoOrders :: "(string \<times> autoOrder) list"
  users :: "string \<rightharpoonup> user"
  menuItems :: "string \<rightharpoonup> menuItem"
  orders :: "order list"
  walletTransactions :: "walletTransaction list"
  notifications :: "notification list"
  autoOrderExecutions :: "execution list"

text \<open>\<^verbatim>\<open>FieldValue.increment(n)\<close>: a missing field counts as 0.\<close>

fun increment :: "int \<Rightarrow> int option \<Rightarrow> int option" where
  "increment n None = Some n"
| "increment n (Some v) = Some (v + n)"

text \<open>The writes that the transaction body issues.\<close>

datatype txn_write =
    UpdateMenuItem string int bool string
  | UpdateUserWallet string int
  | SetOrder order
  | SetWalletTransaction walletTransaction
  | SetNotification notification
  | SetExecution execution
  | UpdateAutoOrderFailed string string string string
  | UpdateAutoOrderExecuted string string string

fun update_doc :: "string \<Rightarrow> ('a \<Rightarrow> 'a) \<Rightarrow> (string \<times> 'a) list \<Rightarrow> (string \<times> 'a) list" where
  "update_doc k f [] = []"
| "update_doc k f ((k', d) # ds) =
     (if k' = k then (k', f d) else (k', d)) # update_doc k f ds"

fun has_doc :: "string \<Rightarrow> (string \<times> 'a) list \<Rightarrow> bool" where
  "has_doc k [] = False"
| "has_doc k ((k', d) # ds) = (k' = k \<or> has_doc k ds)"

text \<open>
  The effect of one write when the transaction commits. \<^verbatim>\<open>update\<close> changes the named
  fields of an existing document and fails (\<open>None\<close>) when the document does not exist;
  \<^verbatim>\<open>set\<close> on a fresh reference adds a document.
\<close>

fun apply_write :: "txn_write \<Rightarrow> store \<Rightarrow> store option" where
  "apply_write (UpdateMenuItem k q a t) s =
     (case menuItems s k of
        None \<Rightarrow> None
      | Some m \<Rightarrow> Some (s\<lparr>menuItems := (menuItems s)(k \<mapsto>
          m\<lparr>mi_quantity := Some q, mi_available := Some a, mi_updatedAt := Some t\<rparr>)\<rparr>))"
| "apply_write (UpdateUserWallet k n) s =
     (case users s k of
        None \<Rightarrow> None
      | Some u \<Rightarrow> Some (s\<lparr>users := (users s)(k \<mapsto>
          u\<lparr>u_walletBalance := increment n (u_walletBalance u)\<rparr>)\<rparr>))"
| "apply_write (SetOrder d) s = Some (s\<lparr>orders := orders s @ [d]\<rparr>)"
| "apply_write (SetWalletTransaction d) s =
     Some (s\<lparr>walletTransactions := walletTransactions s @ [d]\<rparr>)"
| "apply_write (SetNotification d) s = Some (s\<lparr>notifications := notifications s @ [d]\<rparr>)"
| "apply_write (SetExecution d) s =
     Some (s\<lparr>autoOrderExecutions := autoOrderExecutions s @ [d]\<rparr>)"
| "apply_write (UpdateAutoOrderFailed k date t reason) s =
     (if has_doc k (autoOrders s)
      then Some (s\<lparr>autoOrders := update_doc k (\<lambda>d. d\<lparr>
          ao_lastExecutedDate := JStr date,
          ao_lastExecutedAt := Some t,
          ao_lastFailedAt := Some t,
          ao_lastFailureReason := Some reason,
          ao_totalFailures := increment 1 (ao_totalFailures d),
          ao_updatedAt := Some t\<rparr>) (autoOrders s)\<rparr>)
      else None)"
| "apply_write (UpdateAutoOrderExecuted k date t) s =
     (if has_doc k (autoOrders s)
      then Some (s\<lparr>autoOrders := update_doc k (\<lambda>d. d\<lparr>
          ao_lastExecutedDate := JStr date,
          ao_lastExecutedAt := Some t,
          ao_totalExecutions := increment 1 (ao_totalExecutions d),
          ao_updatedAt := Some t\<rparr>) (autoOrders s)\<rparr>)
      else None)"

fun commit :: "txn_write list \<Rightarrow> store \<Rightarrow> store option" where
  "commit [] s = Some s"
| "commit (w # ws) s =
     (case apply_write w s of None \<Rightarrow> None | Some s' \<Rightarrow> commit ws s')"

text \<open>
  \<^verbatim>\<open>adminDb.runTransaction(body)\<close>: the writes issued by the body are applied together
  when the body returns, and none of them is applied when the body throws; the error is
  rethrown to the caller. When a write cannot be applied the transaction fails as a
  whole, with the message \<open>msg\<close> of the store.
\<close>

definition runTransaction ::
  "string \<Rightarrow> (store \<Rightarrow> txn_write list \<times> (string + unit)) \<Rightarrow> store \<Rightarrow> store \<times> (string + unit)" where
  "runTransaction msg body s =
     (case body s of
        (ws, Inl e) \<Rightarrow> (s, Inl e)
      | (ws, Inr u) \<Rightarrow>
          (case commit ws s of
             None \<Rightarrow> (s, Inl msg)
           | Some s' \<Rightarrow> (s', Inr u)))"

subsection \<open>The inputs of a run\<close>

record ist_value =
  ist_time :: string
  ist_day :: DayOfWeek
  ist_dateStr :: string

text \<open>
  A thrown value: an \<^verbatim>\<open>Error\<close> with its message, or anything else, with what
  \<^verbatim>\<open>String(err)\<close> gives for it.
\<close>

datatype thrown = ErrorObj string | NonError string

record env =
  adminDbFailure :: "thrown option"
  queryFailure :: "thrown option"
  ist :: ist_value
  nowISO :: string
  generateOrderId :: "string \<Rightarrow> string"
  newDocId :: "string \<Rightarrow> string"
  docPathError :: "string \<Rightarrow> string"
  commitFailure :: string

text \<open>
  \<open>adminDbFailure\<close> is what \<^verbatim>\<open>adminDb.collection("_healthcheck")\<close> throws, if it does;
  \<open>queryFailure\<close> is what the candidate query throws, if it does. \<open>ist\<close> is
  \<^verbatim>\<open>getIST(now)\<close> and \<open>nowISO\<close> is \<^verbatim>\<open>now.toISOString()\<close>. \<open>generateOrderId k\<close> is
  the identifier that \<^verbatim>\<open>generateOrderId()\<close> returns, and \<open>newDocId k\<close> the identifier of
  the fresh wallet-transaction reference, while candidate \<open>k\<close> is processed.
  \<open>docPathError p\<close> is the message of the error that \<^verbatim>\<open>doc(p)\<close> throws for a path
  that it rejects. \<open>commitFailure\<close> is the message of the error with which the store
  rejects a transaction whose writes cannot be applied.
\<close>

subsection \<open>The result of a run\<close>

record AutoOrderResult =
  success :: bool
  r_time :: string
  r_day :: DayOfWeek
  r_date :: string
  candidates :: nat
  r_skipped :: nat
  r_processed :: nat
  r_succeeded :: nat
  r_failed :: nat
  r_errors :: "string list"
  r_message :: "string option"

subsection \<open>The schedule check\<close>

text \<open>The value of \<^verbatim>\<open>shouldRun\<close> after the day-of-week check of the loop body.\<close>

definition shouldRun :: "autoOrder \<Rightarrow> DayOfWeek \<Rightarrow> bool" where
  "shouldRun autoOrder day =
     (if ao_frequency autoOrder = JStr ''daily'' then True
      else if ao_frequency autoOrder = JStr ''weekdays'' then day \<in> set WEEKDAYS
      else if ao_frequency autoOrder = JStr ''custom'' \<and> isArray (ao_customDays autoOrder)
        then js_includes (ao_customDays autoOrder) (day_string day)
      else False)"

subsection \<open>The transaction body\<close>

definition dquote :: string where
  "dquote = [CHR 0x22]"

text \<open>\<^verbatim>\<open>v || d\<close> on an optional string: a missing and an empty string give \<open>d\<close>.\<close>

definition or_default :: "string option \<Rightarrow> string \<Rightarrow> string" where
  "or_default v d = (case v of None \<Rightarrow> d | Some x \<Rightarrow> if x = [] then d else x)"

text \<open>
  The two writes of a validation branch that fails: the execution log with
  \<open>failureReason\<close> and the tracking update with \<open>lastFailureReason\<close>.
\<close>

definition failure_writes ::
  "env \<Rightarrow> string \<Rightarrow> autoOrder \<Rightarrow> string \<Rightarrow> string \<Rightarrow> txn_write list" where
  "failure_writes e autoOrderId autoOrder failureReason lastFailureReason =
     [SetExecution \<lparr>
        ex_autoOrderId = autoOrderId,
        ex_userId = ao_userId autoOrder,
        ex_orderId = None,
        ex_success = False,
        ex_failureReason = Some failureReason,
        ex_amountDeducted = None,
        ex_stockBefore = None,
        ex_stockAfter = None,
        ex_executedAt = nowISO e\<rparr>,
      UpdateAutoOrderFailed autoOrderId (ist_dateStr (ist e)) (nowISO e) lastFailureReason]"

text \<open>The seven writes W1 to W7 of the write phase.\<close>

definition success_writes ::
  "env \<Rightarrow> string \<Rightarrow> autoOrder \<Rightarrow> string \<Rightarrow> string \<Rightarrow> user \<Rightarrow> int \<Rightarrow> int
     \<Rightarrow> txn_write list" where
  "success_writes e autoOrderId autoOrder userRef menuItemRef userData totalCost currentStock =
     (let orderId = generateOrderId e autoOrderId;
          newStock = currentStock - ao_quantity autoOrder
      in
      [UpdateMenuItem menuItemRef newStock (newStock > 0) (nowISO e),
       UpdateUserWallet userRef (- totalCost),
       SetOrder \<lparr>
         o_orderId = orderId,
         o_userId = ao_userId autoOrder,
         o_userName = or_default (u_name userData) ''Auto Order'',
         o_userEmail = or_default (u_email userData) [],
         o_userRollNumber = or_default (u_rollNumber userData) [],
         o_items = [\<lparr>
           oi_id = ao_itemId autoOrder,
           oi_name = ao_itemName autoOrder,
           oi_price = ao_itemPrice autoOrder,
           oi_quantity = ao_quantity autoOrder\<rparr>],
         o_total = totalCost,
         o_paymentMode = ''Wallet'',
         o_status = ''pending'',
         o_isAutoOrder = True,
         o_autoOrderId = autoOrderId,
         o_createdAt = nowISO e,
         o_updatedAt = nowISO e\<rparr>,
       SetWalletTransaction \<lparr>
         wt_userId = ao_userId autoOrder,
         wt_type = ''debit'',
         wt_amount = totalCost,
         wt_description = ''Auto Order #'' @ orderId @ '' '' @ em_dash @ '' ''
           @ ao_itemName autoOrder @ '' x'' @ show_int (ao_quantity autoOrder),
         wt_transactionId = newDocId e autoOrderId,
         wt_createdAt = nowISO e\<rparr>,
       SetNotification \<lparr>
         n_userId = ao_userId autoOrder,
         n_orderId = orderId,
         n_type = ''auto_order'',
         n_title = ''Auto Order Placed '' @ check_mark,
         n_message = ao_itemName autoOrder @ '' x'' @ show_int (ao_quantity autoOrder)
           @ '' ('' @ rupee @ show_int totalCost @ '') placed automatically.'',
         n_isRead = False,
         n_createdAt = nowISO e\<rparr>,
       SetExecution \<lparr>
         ex_autoOrderId = autoOrderId,
         ex_userId = ao_userId autoOrder,
         ex_orderId = Some orderId,
         ex_success = True,
         ex_failureReason = None,
         ex_amountDeducted = Some totalCost,
         ex_stockBefore = Some currentStock,
         ex_stockAfter = Some newStock,
         ex_executedAt = nowISO e\<rparr>,
       UpdateAutoOrderExecuted autoOrderId (ist_dateStr (ist e)) (nowISO e)])"

text \<open>
  The function passed to \<^verbatim>\<open>runTransaction\<close>: read phase, validation phase, write
  phase. The result is the list of writes issued so far and \<open>Inl msg\<close> where the source
  throws \<^verbatim>\<open>new Error(msg)\<close> or where building \<^verbatim>\<open>userRef\<close> or \<^verbatim>\<open>menuItemRef\<close>
  throws.
\<close>

definition txn_body ::
  "env \<Rightarrow> string \<Rightarrow> autoOrder \<Rightarrow> int \<Rightarrow> store \<Rightarrow> txn_write list \<times> (string + unit)" where
  "txn_body e autoOrderId autoOrder totalCost s =
     (case doc_ref (docPathError e) (ao_userId autoOrder) of
        Inl msg \<Rightarrow> ([], Inl msg)
      | Inr userRef \<Rightarrow>
     (case users s userRef of
        None \<Rightarrow> ([], Inl ''USER_NOT_FOUND'')
      | Some userData \<Rightarrow>
          let walletBalance = nullish (u_walletBalance userData) 0 in
          (case doc_ref (docPathError e) (ao_itemId autoOrder) of
             Inl msg \<Rightarrow> ([], Inl msg)
           | Inr menuItemRef \<Rightarrow>
          (case menuItems s menuItemRef of
             None \<Rightarrow> ([], Inl ''ITEM_NOT_FOUND'')
           | Some menuItemData \<Rightarrow>
               let currentStock = nullish (mi_quantity menuItemData) 0;
                   isAvailable = (mi_available menuItemData \<noteq> Some False)
               in
               if \<not> isAvailable then
                 (failure_writes e autoOrderId autoOrder
                    (''Item '' @ dquote @ ao_itemName autoOrder @ dquote @ '' is unavailable'')
                    (''Item '' @ dquote @ ao_itemName autoOrder @ dquote
                       @ '' is currently unavailable''),
                  Inl ''ITEM_UNAVAILABLE'')
               else if currentStock < ao_quantity autoOrder then
                 (failure_writes e autoOrderId autoOrder
                    (''Insufficient stock: '' @ show_int currentStock @ '' available, ''
                       @ show_int (ao_quantity autoOrder) @ '' needed'')
                    (''Insufficient stock for '' @ dquote @ ao_itemName autoOrder @ dquote
                       @ '' ('' @ show_int currentStock @ '' left, ''
                       @ show_int (ao_quantity autoOrder) @ '' needed)''),
                  Inl ''INSUFFICIENT_STOCK'')
               else if walletBalance < totalCost then
                 (failure_writes e autoOrderId autoOrder
                    (''Insufficient balance: '' @ rupee @ show_int walletBalance @ '' < ''
                       @ rupee @ show_int totalCost)
                    (''Insufficient balance ('' @ rupee @ show_int walletBalance
                       @ '' available, '' @ rupee @ show_int totalCost @ '' needed)''),
                  Inl ''INSUFFICIENT_BALANCE'')
               else
                 (success_writes e autoOrderId autoOrder userRef menuItemRef userData
                    totalCost currentStock,
                  Inr ())))))"

subsection \<open>The per-candidate loop\<close>

text \<open>The string that the \<^verbatim>\<open>catch\<close> of the loop body appends to \<^verbatim>\<open>errors\<close>.\<close>

definition error_entry :: "string \<Rightarrow> string \<Rightarrow> string" where
  "error_entry autoOrderId errMsg =
     (if errMsg = ''INSUFFICIENT_BALANCE'' then autoOrderId @ '': insufficient balance''
      else if errMsg = ''USER_NOT_FOUND'' then autoOrderId @ '': user not found''
      else if errMsg = ''ITEM_NOT_FOUND'' then autoOrderId @ '': menu item not found''
      else if errMsg = ''ITEM_UNAVAILABLE'' then autoOrderId @ '': item unavailable''
      else if errMsg = ''INSUFFICIENT_STOCK'' then autoOrderId @ '': insufficient stock''
      else autoOrderId @ '': '' @ errMsg)"

text \<open>The local variables of the run together with the store.\<close>

record run_state =
  db :: store
  processed :: nat
  succeeded :: nat
  failed :: nat
  skipped :: nat
  errors :: "string list"

text \<open>One iteration of \<^verbatim>\<open>for (const autoOrderDoc of snapshot.docs)\<close>.\<close>

definition process_candidate :: "env \<Rightarrow> string \<times> autoOrder \<Rightarrow> run_state \<Rightarrow> run_state" where
  "process_candidate e autoOrderDoc st =
     (let autoOrder = snd autoOrderDoc;
          autoOrderId = fst autoOrderDoc
      in
      if \<not> shouldRun autoOrder (ist_day (ist e)) then st\<lparr>skipped := skipped st + 1\<rparr>
      else if ao_lastExecutedDate autoOrder = JStr (ist_dateStr (ist e))
        then st\<lparr>skipped := skipped st + 1\<rparr>
      else
        let st1 = st\<lparr>processed := processed st + 1\<rparr>;
            totalCost = ao_itemPrice autoOrder * ao_quantity autoOrder
        in
        (case runTransaction (commitFailure e)
                (txn_body e autoOrderId autoOrder totalCost) (db st1) of
           (s', Inr u) \<Rightarrow> st1\<lparr>db := s', succeeded := succeeded st1 + 1\<rparr>
         | (s', Inl errMsg) \<Rightarrow>
             st1\<lparr>db := s',
                 errors := errors st1 @ [error_entry autoOrderId errMsg],
                 failed := failed st1 + 1\<rparr>))"

fun process_all :: "env \<Rightarrow> (string \<times> autoOrder) list \<Rightarrow> run_state \<Rightarrow> run_state" where
  "process_all e [] st = st"
| "process_all e (d # ds) st = process_all e ds (process_candidate e d st)"

subsection \<open>The run\<close>

text \<open>\<^verbatim>\<open>overrideTime || ist.time\<close>\<close>

definition queryTime :: "env \<Rightarrow> string option \<Rightarrow> string" where
  "queryTime e overrideTime =
     (case overrideTime of
        None \<Rightarrow> ist_time (ist e)
      | Some t \<Rightarrow> if t = [] then ist_time (ist e) else t)"

text \<open>
  The query \<^verbatim>\<open>where("status", "==", "active").where("time", "==", queryTime)\<close> on the
  \<^verbatim>\<open>autoOrders\<close> collection.
\<close>

definition snapshot :: "string \<Rightarrow> store \<Rightarrow> (string \<times> autoOrder) list" where
  "snapshot qt s =
     filter (\<lambda>d. ao_status (snd d) = ''active'' \<and> ao_time (snd d) = qt) (autoOrders s)"

definition executeAutoOrders :: "env \<Rightarrow> string option \<Rightarrow> store \<Rightarrow> AutoOrderResult \<times> store" where
  "executeAutoOrders e overrideTime s =
     (case adminDbFailure e of
        Some err \<Rightarrow>
          (let errMsg = (case err of ErrorObj m \<Rightarrow> m | NonError v \<Rightarrow> v) in
           (\<lparr>success = False,
             r_time = ''??:??'',
             r_day = Mon,
             r_date = ''unknown'',
             candidates = 0,
             r_skipped = 0,
             r_processed = 0,
             r_succeeded = 0,
             r_failed = 0,
             r_errors = [''Firebase Admin SDK init failed: '' @ errMsg],
             r_message = Some ''Firebase Admin SDK is not working''\<rparr>, s))
      | None \<Rightarrow>
          (case queryFailure e of
             Some error \<Rightarrow>
               (let msg = (case error of ErrorObj m \<Rightarrow> m | NonError v \<Rightarrow> ''Execution failed'') in
                (\<lparr>success = False,
                  r_time = queryTime e overrideTime,
                  r_day = ist_day (ist e),
                  r_date = ist_dateStr (ist e),
                  candidates = 0,
                  r_skipped = 0,
                  r_processed = 0,
                  r_succeeded = 0,
                  r_failed = 0,
                  r_errors = [msg],
                  r_message = Some msg\<rparr>, s))
           | None \<Rightarrow>
               (let docs = snapshot (queryTime e overrideTime) s in
                if docs = [] then
                  (\<lparr>success = True,
                    r_time = queryTime e overrideTime,
                    r_day = ist_day (ist e),
                    r_date = ist_dateStr (ist e),
                    candidates = 0,
                    r_skipped = 0,
                    r_processed = 0,
                    r_succeeded = 0,
                    r_failed = 0,
                    r_errors = [],
                    r_message = Some (''No active auto orders for ''
                      @ queryTime e overrideTime @ '' IST'')\<rparr>, s)
                else
                  (let st = process_all e docs
                       \<lparr>db = s, processed = 0, succeeded = 0, failed = 0, skipped = 0,
                        errors = []\<rparr>
                   in
                   (\<lparr>success = True,
                     r_time = queryTime e overrideTime,
                     r_day = ist_day (ist e),
                     r_date = ist_dateStr (ist e),
                     candidates = length docs,
                     r_skipped = skipped st,
                     r_processed = processed st,
                     r_succeeded = succeeded st,
                     r_failed = failed st,
                     r_errors = errors st,
                     r_message = None\<rparr>, db st)))))"

subsection \<open>Candidates that an iteration skips\<close>

text \<open>
  The two conditions under which the loop body executes \<^verbatim>\<open>skipped++; continue\<close>:
  the candidate is not scheduled for today, or its \<^verbatim>\<open>lastExecutedDate\<close> is today.
\<close>

definition is_skipped :: "env \<Rightarrow> autoOrder \<Rightarrow> bool" where
  "is_skipped e autoOrder =
     (\<not> shouldRun autoOrder (ist_day (ist e))
      \<or> ao_lastExecutedDate autoOrder = JStr (ist_dateStr (ist e)))"

subsection \<open>Non-negative balances and stocks\<close>

text \<open>
  The user document \<open>a\<close> exists with a balance that is not negative, and the menu item
  document \<open>i\<close> exists with a stock that is not negative; a missing field is read as 0,
  as the engine reads it.
\<close>

definition nonneg_balance :: "store \<Rightarrow> string \<Rightarrow> bool" where
  "nonneg_balance s a =
     (case users s a of None \<Rightarrow> False | Some u \<Rightarrow> 0 \<le> nullish (u_walletBalance u) 0)"

definition nonneg_stock :: "store \<Rightarrow> string \<Rightarrow> bool" where
  "nonneg_stock s i =
     (case menuItems s i of None \<Rightarrow> False | Some m \<Rightarrow> 0 \<le> nullish (mi_quantity m) 0)"

subsection \<open>The start of the loop, and stores that agree up to defaulted fields\<close>

text \<open>
  The local counters as \<^verbatim>\<open>executeAutoOrders\<close> declares them before the loop, over the
  store that the run starts from.
\<close>

definition start :: "store \<Rightarrow> run_state" where
  "start s = \<lparr>db = s, processed = 0, succeeded = 0, failed = 0, skipped = 0, errors = []\<rparr>"

text \<open>
  The validation reads \<^verbatim>\<open>walletBalance\<close> and \<^verbatim>\<open>quantity\<close> through \<^verbatim>\<open>?? 0\<close> and
  \<^verbatim>\<open>available\<close> through \<^verbatim>\<open>!== false\<close>. Two user documents agree up to defaults when they
  differ at most in \<^verbatim>\<open>walletBalance\<close> and \<^verbatim>\<open>?? 0\<close> reads the same balance from both; two
  menu items agree up to defaults when they differ at most in \<^verbatim>\<open>quantity\<close> and
  \<^verbatim>\<open>available\<close>, \<^verbatim>\<open>?? 0\<close> reads the same stock from both, and \<^verbatim>\<open>available\<close> is
  \<^verbatim>\<open>false\<close> in both or in neither. Two stores agree up to defaults when they hold the
  same documents and their user documents and menu items agree up to defaults. These
  relations are used to compare two runs.
\<close>

definition user_eqv :: "user \<Rightarrow> user \<Rightarrow> bool" where
  "user_eqv u u' =
     (u' = u\<lparr>u_walletBalance := u_walletBalance u'\<rparr>
      \<and> nullish (u_walletBalance u) 0 = nullish (u_walletBalance u') 0)"

definition item_eqv :: "menuItem \<Rightarrow> menuItem \<Rightarrow> bool" where
  "item_eqv m m' =
     (m' = m\<lparr>mi_quantity := mi_quantity m', mi_available := mi_available m'\<rparr>
      \<and> nullish (mi_quantity m) 0 = nullish (mi_quantity m') 0
      \<and> (mi_available m = Some False) = (mi_available m' = Some False))"

definition store_eqv :: "store \<Rightarrow> store \<Rightarrow> bool" where
  "store_eqv s s' =
     (s' = s\<lparr>users := users s', menuItems := menuItems s'\<rparr>
      \<and> (\<forall>a. rel_option user_eqv (users s a) (users s' a))
      \<and> (\<forall>i. rel_option item_eqv (menuItems s i) (menuItems s' i)))"

definition state_eqv :: "run_state \<Rightarrow> run_state \<Rightarrow> bool" where
  "state_eqv st st' = (st' = st\<lparr>db := db st'\<rparr> \<and> store_eqv (db st) (db st'))"

subsection \<open>A small store\<close>

text \<open>
  One user with a balance of 100, one menu item with 5 in stock, and one daily auto
  order of 2 items at 10 each, scheduled for 09:00; the run takes place on Tuesday
  2024-01-02 at 09:00 IST.
\<close>

text \<open>The messages with which the Node.js SDK rejects a document path.\<close>

definition sdk_path_error :: "string \<Rightarrow> string" where
  "sdk_path_error p =
     (if p = [] then
        ''Value for argument '' @ dquote @ ''documentPath'' @ dquote
          @ '' is not a valid resource path. Path must be a non-empty string.''
      else if has_double_slash p then
        ''Value for argument '' @ dquote @ ''documentPath'' @ dquote
          @ '' is not a valid resource path. Paths must not contain //.''
      else
        ''Value for argument '' @ dquote @ ''documentPath'' @ dquote
          @ '' must point to a document, but was '' @ dquote @ p @ dquote
          @ ''. Your path does not contain an even number of components.'')"

definition env0 :: env where
  "env0 = \<lparr>adminDbFailure = None, queryFailure = None,
     ist = \<lparr>ist_time = ''09:00'', ist_day = Tue, ist_dateStr = ''2024-01-02''\<rparr>,
     nowISO = ''2024-01-02T03:30:00.000Z'',
     generateOrderId = (\<lambda>k. ''ORD-'' @ k),
     newDocId = (\<lambda>k. ''txn-'' @ k),
     docPathError = sdk_path_error,
     commitFailure = ''NOT_FOUND''\<rparr>"

definition ao0 :: autoOrder where
  "ao0 = \<lparr>ao_userId = ''u1'', ao_itemId = ''m1'', ao_itemName = ''Chai'',
     ao_itemPrice = 10, ao_quantity = 2, ao_frequency = JStr ''daily'',
     ao_customDays = JUndefined, ao_status = ''active'', ao_time = ''09:00'',
     ao_lastExecutedDate = JUndefined, ao_lastExecutedAt = None, ao_lastFailedAt = None,
     ao_lastFailureReason = None, ao_totalExecutions = None, ao_totalFailures = None,
     ao_updatedAt = None\<rparr>"

definition user0 :: user where
  "user0 = \<lparr>u_walletBalance = Some 100, u_name = Some ''Asha'', u_email = None,
     u_rollNumber = None\<rparr>"

definition item0 :: menuItem where
  "item0 = \<lparr>mi_quantity = Some 5, mi_available = Some True, mi_updatedAt = None\<rparr>"

definition store0 :: store where
  "store0 = \<lparr>autoOrders = [(''a1'', ao0)],
     users = [''u1'' \<mapsto> user0],
     menuItems = [''m1'' \<mapsto> item0],
     orders = [], walletTransactions = [], notifications = [],
     autoOrderExecutions = []\<rparr>"

text \<open>The same store with other contents for the user and the menu item.\<close>

definition store1 :: "user option \<Rightarrow> menuItem option \<Rightarrow> store" where
  "store1 u m = store0\<lparr>users := Map.empty(''u1'' := u), menuItems := Map.empty(''m1'' := m)\<rparr>"

definition st0 :: run_state where
  "st0 = \<lparr>db = store0, processed = 0, succeeded = 0, failed = 0, skipped = 0, errors = []\<rparr>"

text \<open>
  A store with two candidates: the first names a menu item that does not exist, the
  second is the auto order above.
\<close>

definition store2 :: store where
  "store2 = store0\<lparr>autoOrders := [(''a0'', ao0\<lparr>ao_itemId := ''m9''\<rparr>), (''a1'', ao0)]\<rparr>"

definition st2 :: run_state where
  "st2 = \<lparr>db = store2, processed = 0, succeeded = 0, failed = 0, skipped = 0, errors = []\<rparr>"

text \<open>A second invocation seven minutes later on the same day.\<close>

definition env1 :: env where
  "env1 = env0\<lparr>ist := \<lparr>ist_time = ''09:07'', ist_day = Tue, ist_dateStr = ''2024-01-02''\<rparr>,
     nowISO := ''2024-01-02T03:37:00.000Z''\<rparr>"

section \<open>Properties\<close>

subsection \<open>The outcomes of the transaction body and of one iteration\<close>

lemma nullish_simps: "nullish None d = d" "nullish (Some x) d = x"
  by (simp_all add: nullish_def)

lemma has_double_slash_plain: "CHR ''/'' \<notin> set p \<Longrightarrow> \<not> has_double_slash p"
  by (induction p rule: has_double_slash.induct) auto

lemma path_segments_plain:
  "CHR ''/'' \<notin> set p \<Longrightarrow> seg @ p \<noteq> [] \<Longrightarrow> path_segments seg p = [seg @ p]"
  by (induction p arbitrary: seg) auto

lemma doc_ref_valid:
  "doc_ref f p = (if valid_doc_path p then Inr (doc_key p) else Inl (f p))"
  by (auto simp: doc_ref_def valid_doc_path_def)

lemma plain_id:
  assumes "p \<noteq> []" and "CHR ''/'' \<notin> set p"
  shows "valid_doc_path p" and "doc_key p = p"
  using assms path_segments_plain [of p "[]"] has_double_slash_plain [of p]
  by (simp_all add: valid_doc_path_def doc_key_def split_path_def)

lemma txn_body_cases:
  "(\<exists>err. txn_body e k ao tc s = ([], Inl err)
       \<and> (err = ''USER_NOT_FOUND'' \<or> err = ''ITEM_NOT_FOUND''
          \<or> err = docPathError e (ao_userId ao) \<or> err = docPathError e (ao_itemId ao)))
   \<or> (\<exists>fr lr err. txn_body e k ao tc s = (failure_writes e k ao fr lr, Inl err))
   \<or> (\<exists>u m. valid_doc_path (ao_userId ao) \<and> valid_doc_path (ao_itemId ao)
        \<and> users s (doc_key (ao_userId ao)) = Some u
        \<and> menuItems s (doc_key (ao_itemId ao)) = Some m
        \<and> mi_available m \<noteq> Some False
        \<and> ao_quantity ao \<le> nullish (mi_quantity m) 0
        \<and> tc \<le> nullish (u_walletBalance u) 0
        \<and> txn_body e k ao tc s =
            (success_writes e k ao (doc_key (ao_userId ao)) (doc_key (ao_itemId ao)) u tc
               (nullish (mi_quantity m) 0), Inr ()))"
  by (simp add: txn_body_def doc_ref_valid Let_def split: option.split) blast

lemma process_candidate_cases:
  "((\<not> shouldRun ao (ist_day (ist e)) \<or> ao_lastExecutedDate ao = JStr (ist_dateStr (ist e)))
      \<and> process_candidate e (k, ao) st = st\<lparr>skipped := skipped st + 1\<rparr>)
   \<or> (\<exists>err. shouldRun ao (ist_day (ist e))
        \<and> ao_lastExecutedDate ao \<noteq> JStr (ist_dateStr (ist e))
        \<and> process_candidate e (k, ao) st =
            st\<lparr>processed := processed st + 1,
               errors := errors st @ [error_entry k err],
               failed := failed st + 1\<rparr>)
   \<or> (\<exists>u m s'. shouldRun ao (ist_day (ist e))
        \<and> ao_lastExecutedDate ao \<noteq> JStr (ist_dateStr (ist e))
        \<and> users (db st) (doc_key (ao_userId ao)) = Some u
        \<and> menuItems (db st) (doc_key (ao_itemId ao)) = Some m
        \<and> mi_available m \<noteq> Some False
        \<and> ao_quantity ao \<le> nullish (mi_quantity m) 0
        \<and> ao_itemPrice ao * ao_quantity ao \<le> nullish (u_walletBalance u) 0
        \<and> commit (success_writes e k ao (doc_key (ao_userId ao)) (doc_key (ao_itemId ao)) u (ao_itemPrice ao * ao_quantity ao)
              (nullish (mi_quantity m) 0)) (db st) = Some s'
        \<and> process_candidate e (k, ao) st =
            st\<lparr>processed := processed st + 1, db := s', succeeded := succeeded st + 1\<rparr>)"
proof -
  let ?tc = "ao_itemPrice ao * ao_quantity ao"
  show ?thesis
  proof (cases "\<not> shouldRun ao (ist_day (ist e))
      \<or> ao_lastExecutedDate ao = JStr (ist_dateStr (ist e))")
    case True
    then show ?thesis by (auto simp: process_candidate_def)
  next
    case False
    then have due: "shouldRun ao (ist_day (ist e))"
      and nd: "ao_lastExecutedDate ao \<noteq> JStr (ist_dateStr (ist e))" by simp_all
    have pc: "process_candidate e (k, ao) st =
        (case runTransaction (commitFailure e) (txn_body e k ao ?tc) (db st) of
           (s', Inr u) \<Rightarrow> st\<lparr>processed := processed st + 1, db := s',
               succeeded := succeeded st + 1\<rparr>
         | (s', Inl errMsg) \<Rightarrow>
             st\<lparr>processed := processed st + 1, db := s',
                 errors := errors st @ [error_entry k errMsg],
                 failed := failed st + 1\<rparr>)"
      using due nd by (simp add: process_candidate_def Let_def)
    consider (fail) ws err where "txn_body e k ao ?tc (db st) = (ws, Inl err)"
      | (ok) u m where "users (db st) (doc_key (ao_userId ao)) = Some u"
          "menuItems (db st) (doc_key (ao_itemId ao)) = Some m"
          "mi_available m \<noteq> Some False"
          "ao_quantity ao \<le> nullish (mi_quantity m) 0"
          "?tc \<le> nullish (u_walletBalance u) 0"
          "txn_body e k ao ?tc (db st) =
            (success_writes e k ao (doc_key (ao_userId ao)) (doc_key (ao_itemId ao)) u ?tc (nullish (mi_quantity m) 0), Inr ())"
      using txn_body_cases [of e k ao ?tc "db st"] by blast
    then show ?thesis
    proof cases
      case fail
      then have "process_candidate e (k, ao) st =
            st\<lparr>processed := processed st + 1,
               errors := errors st @ [error_entry k err],
               failed := failed st + 1\<rparr>"
        using pc by (simp add: runTransaction_def)
      then show ?thesis using due nd by blast
    next
      case ok
      show ?thesis
      proof (cases "commit (success_writes e k ao (doc_key (ao_userId ao)) (doc_key (ao_itemId ao)) u ?tc (nullish (mi_quantity m) 0)) (db st)")
        case None
        then have "process_candidate e (k, ao) st =
            st\<lparr>processed := processed st + 1,
               errors := errors st @ [error_entry k (commitFailure e)],
               failed := failed st + 1\<rparr>"
          using pc ok(6) by (simp add: runTransaction_def)
        then show ?thesis using due nd by blast
      next
        case (Some s')
        then have "process_candidate e (k, ao) st =
            st\<lparr>processed := processed st + 1, db := s', succeeded := succeeded st + 1\<rparr>"
          using pc ok(6) by (simp add: runTransaction_def)
        then show ?thesis using due nd ok(1-5) Some by blast
      qed
    qed
  qed
qed

lemma map_of_update_doc:
  "map_of (update_doc k f xs) k' = (if k' = k then map_option f (map_of xs k) else map_of xs k')"
  by (induction xs) auto

lemma has_doc_map_of: "has_doc k xs \<longleftrightarrow> map_of xs k \<noteq> None"
  by (induction xs) auto

lemma commit_success_writes:
  assumes "users s (doc_key (ao_userId ao)) = Some u" and "menuItems s (doc_key (ao_itemId ao)) = Some m"
  shows "commit (success_writes e k ao (doc_key (ao_userId ao)) (doc_key (ao_itemId ao)) u tc cs) s =
    (if has_doc k (autoOrders s) then
       Some (s\<lparr>
         menuItems := (menuItems s)(doc_key (ao_itemId ao) \<mapsto>
           m\<lparr>mi_quantity := Some (cs - ao_quantity ao),
             mi_available := Some (cs - ao_quantity ao > 0),
             mi_updatedAt := Some (nowISO e)\<rparr>),
         users := (users s)(doc_key (ao_userId ao) \<mapsto>
           u\<lparr>u_walletBalance := increment (- tc) (u_walletBalance u)\<rparr>),
         orders := orders s @ [\<lparr>
           o_orderId = generateOrderId e k,
           o_userId = ao_userId ao,
           o_userName = or_default (u_name u) ''Auto Order'',
           o_userEmail = or_default (u_email u) [],
           o_userRollNumber = or_default (u_rollNumber u) [],
           o_items = [\<lparr>oi_id = ao_itemId ao, oi_name = ao_itemName ao,
             oi_price = ao_itemPrice ao, oi_quantity = ao_quantity ao\<rparr>],
           o_total = tc,
           o_paymentMode = ''Wallet'',
           o_status = ''pending'',
           o_isAutoOrder = True,
           o_autoOrderId = k,
           o_createdAt = nowISO e,
           o_updatedAt = nowISO e\<rparr>],
         walletTransactions := walletTransactions s @ [\<lparr>
           wt_userId = ao_userId ao,
           wt_type = ''debit'',
           wt_amount = tc,
           wt_description = ''Auto Order #'' @ generateOrderId e k @ '' '' @ em_dash @ '' ''
             @ ao_itemName ao @ '' x'' @ show_int (ao_quantity ao),
           wt_transactionId = newDocId e k,
           wt_createdAt = nowISO e\<rparr>],
         notifications := notifications s @ [\<lparr>
           n_userId = ao_userId ao,
           n_orderId = generateOrderId e k,
           n_type = ''auto_order'',
           n_title = ''Auto Order Placed '' @ check_mark,
           n_message = ao_itemName ao @ '' x'' @ show_int (ao_quantity ao)
             @ '' ('' @ rupee @ show_int tc @ '') placed automatically.'',
           n_isRead = False,
           n_createdAt = nowISO e\<rparr>],
         autoOrderExecutions := autoOrderExecutions s @ [\<lparr>
           ex_autoOrderId = k,
           ex_userId = ao_userId ao,
           ex_orderId = Some (generateOrderId e k),
           ex_success = True,
           ex_failureReason = None,
           ex_amountDeducted = Some tc,
           ex_stockBefore = Some cs,
           ex_stockAfter = Some (cs - ao_quantity ao),
           ex_executedAt = nowISO e\<rparr>],
         autoOrders := update_doc k (\<lambda>d. d\<lparr>
           ao_lastExecutedDate := JStr (ist_dateStr (ist e)),
           ao_lastExecutedAt := Some (nowISO e),
           ao_totalExecutions := increment 1 (ao_totalExecutions d),
           ao_updatedAt := Some (nowISO e)\<rparr>) (autoOrders s)\<rparr>)
     else None)"
  using assms by (simp add: success_writes_def Let_def)

lemma increment_nullish: "increment n v = Some (nullish v 0 + n)"
  by (cases v) (simp_all add: nullish_def)

lemma failure_writes_shape:
  "\<exists>x reason. \<not> ex_success x \<and> ex_autoOrderId x = k \<and>
     failure_writes e k ao fr lr =
       [SetExecution x, UpdateAutoOrderFailed k (ist_dateStr (ist e)) (nowISO e) reason]"
  by (simp add: failure_writes_def)

lemma process_candidate_failed:
  assumes "shouldRun ao (ist_day (ist e))"
    and "ao_lastExecutedDate ao \<noteq> JStr (ist_dateStr (ist e))"
    and "snd (txn_body e k ao (ao_itemPrice ao * ao_quantity ao) (db st)) = Inl err"
  shows "process_candidate e (k, ao) st =
           st\<lparr>processed := processed st + 1,
              errors := errors st @ [error_entry k err],
              failed := failed st + 1\<rparr>"
proof -
  obtain ws where "txn_body e k ao (ao_itemPrice ao * ao_quantity ao) (db st) = (ws, Inl err)"
    using assms(3)
    by (cases "txn_body e k ao (ao_itemPrice ao * ao_quantity ao) (db st)") simp
  then show ?thesis
    using assms(1,2) by (simp add: process_candidate_def runTransaction_def Let_def)
qed

lemma txn_body_result:
  "snd (txn_body e k ao tc s) =
     (if \<not> valid_doc_path (ao_userId ao) then Inl (docPathError e (ao_userId ao))
      else
       (case users s (doc_key (ao_userId ao)) of
          None \<Rightarrow> Inl ''USER_NOT_FOUND''
        | Some u \<Rightarrow>
            if \<not> valid_doc_path (ao_itemId ao) then Inl (docPathError e (ao_itemId ao))
            else
             (case menuItems s (doc_key (ao_itemId ao)) of
                None \<Rightarrow> Inl ''ITEM_NOT_FOUND''
              | Some m \<Rightarrow>
                  if mi_available m = Some False then Inl ''ITEM_UNAVAILABLE''
                  else if nullish (mi_quantity m) 0 < ao_quantity ao
                    then Inl ''INSUFFICIENT_STOCK''
                  else if nullish (u_walletBalance u) 0 < tc then Inl ''INSUFFICIENT_BALANCE''
                  else Inr ())))"
  by (simp add: txn_body_def doc_ref_valid Let_def split: option.split)

lemma process_candidate_counts:
  "skipped (process_candidate e c st) + processed (process_candidate e c st)
     = skipped st + processed st + 1
   \<and> processed (process_candidate e c st) + succeeded st + failed st
     = processed st + succeeded (process_candidate e c st) + failed (process_candidate e c st)
   \<and> length (errors (process_candidate e c st)) + failed st
     = length (errors st) + failed (process_candidate e c st)"
  using process_candidate_cases [of "snd c" e "fst c" st]
  by (elim disjE exE conjE) simp_all

lemma process_all_counts:
  "skipped (process_all e cs st) + processed (process_all e cs st)
     = skipped st + processed st + length cs
   \<and> processed (process_all e cs st) + succeeded st + failed st
     = processed st + succeeded (process_all e cs st) + failed (process_all e cs st)
   \<and> length (errors (process_all e cs st)) + failed st
     = length (errors st) + failed (process_all e cs st)"
proof (induction cs arbitrary: st)
  case Nil
  then show ?case by simp
next
  case (Cons c cs)
  show ?case
    using Cons.IH [of "process_candidate e c st"] process_candidate_counts [of e c st]
    by simp
qed


lemma commit_success_effect:
  assumes "commit (success_writes e k ao (doc_key (ao_userId ao)) (doc_key (ao_itemId ao)) u tc cs) s = Some s'"
    and "users s (doc_key (ao_userId ao)) = Some u" and "menuItems s (doc_key (ao_itemId ao)) = Some m"
  shows "users s' = (users s)(doc_key (ao_userId ao) \<mapsto>
             u\<lparr>u_walletBalance := Some (nullish (u_walletBalance u) 0 - tc)\<rparr>)"
    and "menuItems s' = (menuItems s)(doc_key (ao_itemId ao) \<mapsto>
             m\<lparr>mi_quantity := Some (cs - ao_quantity ao),
               mi_available := Some (cs - ao_quantity ao > 0),
               mi_updatedAt := Some (nowISO e)\<rparr>)"
    and "autoOrders s' = update_doc k (\<lambda>d. d\<lparr>
           ao_lastExecutedDate := JStr (ist_dateStr (ist e)),
           ao_lastExecutedAt := Some (nowISO e),
           ao_totalExecutions := increment 1 (ao_totalExecutions d),
           ao_updatedAt := Some (nowISO e)\<rparr>) (autoOrders s)"
    and "has_doc k (autoOrders s)"
  using assms(1) commit_success_writes [OF assms(2,3), of e k tc cs]
  by (auto simp: increment_nullish split: if_splits)

lemma process_candidate_nonneg:
  "(nonneg_balance (db st) a \<longrightarrow> nonneg_balance (db (process_candidate e c st)) a)
   \<and> (nonneg_stock (db st) i \<longrightarrow> nonneg_stock (db (process_candidate e c st)) i)"
proof -
  obtain k ao where c: "c = (k, ao)" by (cases c)
  let ?tc = "ao_itemPrice ao * ao_quantity ao"
  consider (same) "db (process_candidate e c st) = db st"
    | (commit) u m s' where "users (db st) (doc_key (ao_userId ao)) = Some u"
        "menuItems (db st) (doc_key (ao_itemId ao)) = Some m"
        "ao_quantity ao \<le> nullish (mi_quantity m) 0"
        "?tc \<le> nullish (u_walletBalance u) 0"
        "commit (success_writes e k ao (doc_key (ao_userId ao)) (doc_key (ao_itemId ao)) u ?tc (nullish (mi_quantity m) 0)) (db st) = Some s'"
        "db (process_candidate e c st) = s'"
    using process_candidate_cases [of ao e k st] unfolding c
    by (elim disjE exE conjE) simp_all
  then show ?thesis
  proof cases
    case same
    then show ?thesis by simp
  next
    case commit
    note eff = commit_success_effect [OF commit(5) commit(1,2)]
    have b: "nonneg_balance (db st) a \<longrightarrow> nonneg_balance s' a"
      using commit(1,4)
      by (auto simp: nonneg_balance_def eff(1) nullish_simps split: option.splits)
    have q: "nonneg_stock (db st) i \<longrightarrow> nonneg_stock s' i"
      using commit(2,3)
      by (auto simp: nonneg_stock_def eff(2) nullish_simps split: option.splits)
    show ?thesis using b q commit(6) by simp
  qed
qed

lemma process_all_nonneg:
  "(nonneg_balance (db st) a \<longrightarrow> nonneg_balance (db (process_all e cs st)) a)
   \<and> (nonneg_stock (db st) i \<longrightarrow> nonneg_stock (db (process_all e cs st)) i)"
proof (induction cs arbitrary: st)
  case Nil
  then show ?case by simp
next
  case (Cons c cs)
  show ?case
    using Cons.IH [of "process_candidate e c st"] process_candidate_nonneg [of st a e c i]
    by simp
qed

lemma process_candidate_skipped:
  "skipped (process_candidate e c st) = skipped st + (if is_skipped e (snd c) then 1 else 0)"
  using process_candidate_cases [of "snd c" e "fst c" st]
  by (elim disjE exE conjE) (simp_all add: is_skipped_def)

lemma process_all_skipped:
  "skipped (process_all e cs st) = skipped st + length (filter (\<lambda>c. is_skipped e (snd c)) cs)"
proof (induction cs arbitrary: st)
  case Nil
  then show ?case by simp
next
  case (Cons c cs)
  show ?case
    using Cons.IH [of "process_candidate e c st"] process_candidate_skipped [of e c st]
    by simp
qed

lemma process_candidate_frame:
  assumes "fst c \<noteq> k"
  shows "map_of (autoOrders (db (process_candidate e c st))) k = map_of (autoOrders (db st)) k"
proof -
  obtain k' ao where c: "c = (k', ao)" by (cases c)
  let ?tc = "ao_itemPrice ao * ao_quantity ao"
  consider (same) "db (process_candidate e c st) = db st"
    | (commit) u m s' where "users (db st) (doc_key (ao_userId ao)) = Some u"
        "menuItems (db st) (doc_key (ao_itemId ao)) = Some m"
        "commit (success_writes e k' ao (doc_key (ao_userId ao)) (doc_key (ao_itemId ao)) u ?tc (nullish (mi_quantity m) 0)) (db st) = Some s'"
        "db (process_candidate e c st) = s'"
    using process_candidate_cases [of ao e k' st] unfolding c
    by (elim disjE exE conjE) simp_all
  then show ?thesis
  proof cases
    case same
    then show ?thesis by simp
  next
    case commit
    show ?thesis
      using assms commit(4) commit_success_effect(3) [OF commit(3) commit(1,2)]
      by (simp add: c map_of_update_doc)
  qed
qed

lemma process_all_frame:
  assumes "k \<notin> fst ` set cs"
  shows "map_of (autoOrders (db (process_all e cs st))) k = map_of (autoOrders (db st)) k"
  using assms
proof (induction cs arbitrary: st)
  case Nil
  then show ?case by simp
next
  case (Cons c cs)
  then have "fst c \<noteq> k" and "k \<notin> fst ` set cs" by auto
  then show ?case
    using Cons.IH [of "process_candidate e c st"] process_candidate_frame [of c k e st]
    by simp
qed

lemma process_candidate_own_doc:
  assumes "map_of (autoOrders (db st)) k = Some ao"
  shows "skipped (process_candidate e (k, ao) st) + succeeded (process_candidate e (k, ao) st)
    = skipped st + succeeded st
      + (if is_skipped e (the (map_of (autoOrders (db (process_candidate e (k, ao) st))) k))
         then 1 else 0)"
proof -
  let ?tc = "ao_itemPrice ao * ao_quantity ao"
  consider (skip) "is_skipped e ao"
      "process_candidate e (k, ao) st = st\<lparr>skipped := skipped st + 1\<rparr>"
    | (fail) err where "\<not> is_skipped e ao"
        "process_candidate e (k, ao) st =
            st\<lparr>processed := processed st + 1,
               errors := errors st @ [error_entry k err],
               failed := failed st + 1\<rparr>"
    | (commit) u m s' where "users (db st) (doc_key (ao_userId ao)) = Some u"
        "menuItems (db st) (doc_key (ao_itemId ao)) = Some m"
        "commit (success_writes e k ao (doc_key (ao_userId ao)) (doc_key (ao_itemId ao)) u ?tc (nullish (mi_quantity m) 0)) (db st) = Some s'"
        "process_candidate e (k, ao) st =
            st\<lparr>processed := processed st + 1, db := s', succeeded := succeeded st + 1\<rparr>"
    using process_candidate_cases [of ao e k st]
    by (elim disjE exE conjE) (simp_all add: is_skipped_def)
  then show ?thesis
  proof cases
    case skip
    then show ?thesis using assms by simp
  next
    case fail
    then show ?thesis using assms by simp
  next
    case commit
    show ?thesis
      using assms commit(4) commit_success_effect(3) [OF commit(3) commit(1,2)]
      by (simp add: map_of_update_doc is_skipped_def)
  qed
qed

lemma process_all_own_docs:
  assumes "distinct (map fst cs)"
    and "\<forall>c \<in> set cs. map_of (autoOrders (db st)) (fst c) = Some (snd c)"
  shows "skipped (process_all e cs st) + succeeded (process_all e cs st)
    = skipped st + succeeded st
      + length (filter (\<lambda>c. is_skipped e
          (the (map_of (autoOrders (db (process_all e cs st))) (fst c)))) cs)"
  using assms
proof (induction cs arbitrary: st)
  case Nil
  then show ?case by simp
next
  case (Cons c cs)
  obtain k ao where c: "c = (k, ao)" by (cases c)
  let ?st1 = "process_candidate e c st"
  have k: "k \<notin> fst ` set cs" and d: "distinct (map fst cs)"
    using Cons.prems(1) by (auto simp: c)
  have own: "map_of (autoOrders (db st)) k = Some ao"
    using Cons.prems(2) by (simp add: c)
  have rest: "\<forall>c' \<in> set cs. map_of (autoOrders (db ?st1)) (fst c') = Some (snd c')"
  proof
    fix c' assume m: "c' \<in> set cs"
    then have "fst c \<noteq> fst c'" using k by (auto simp: c)
    then show "map_of (autoOrders (db ?st1)) (fst c') = Some (snd c')"
      using process_candidate_frame [of c "fst c'" e st] Cons.prems(2) m by simp
  qed
  have fin: "map_of (autoOrders (db (process_all e cs ?st1))) k
      = map_of (autoOrders (db ?st1)) k"
    using process_all_frame [OF k] by simp
  show ?case
    using Cons.IH [OF d rest] process_candidate_own_doc [OF own, of e] fin
    by (simp add: c)
qed


lemma update_doc_shape:
  assumes "\<And>d. g (f d) = g d"
  shows "map (\<lambda>c. (fst c, g (snd c))) (update_doc k f xs) = map (\<lambda>c. (fst c, g (snd c))) xs"
  using assms by (induction xs) auto

lemma process_candidate_shape:
  "map (\<lambda>c. (fst c, ao_status (snd c), ao_time (snd c)))
       (autoOrders (db (process_candidate e c st)))
   = map (\<lambda>c. (fst c, ao_status (snd c), ao_time (snd c))) (autoOrders (db st))"
proof -
  obtain k ao where c: "c = (k, ao)" by (cases c)
  let ?tc = "ao_itemPrice ao * ao_quantity ao"
  consider (same) "db (process_candidate e c st) = db st"
    | (commit) u m s' where "users (db st) (doc_key (ao_userId ao)) = Some u"
        "menuItems (db st) (doc_key (ao_itemId ao)) = Some m"
        "commit (success_writes e k ao (doc_key (ao_userId ao)) (doc_key (ao_itemId ao)) u ?tc (nullish (mi_quantity m) 0)) (db st) = Some s'"
        "db (process_candidate e c st) = s'"
    using process_candidate_cases [of ao e k st] unfolding c
    by (elim disjE exE conjE) simp_all
  then show ?thesis
  proof cases
    case same
    then show ?thesis by simp
  next
    case commit
    show ?thesis
      unfolding commit(4) commit_success_effect(3) [OF commit(3) commit(1,2)]
      by (rule update_doc_shape [where g = "\<lambda>d. (ao_status d, ao_time d)"]) simp
  qed
qed

lemma process_all_shape:
  "map (\<lambda>c. (fst c, ao_status (snd c), ao_time (snd c)))
       (autoOrders (db (process_all e cs st)))
   = map (\<lambda>c. (fst c, ao_status (snd c), ao_time (snd c))) (autoOrders (db st))"
proof (induction cs arbitrary: st)
  case Nil
  then show ?case by simp
next
  case (Cons c cs)
  show ?case
    using Cons.IH [of "process_candidate e c st"] process_candidate_shape [of e c st]
    by simp
qed

lemma snapshot_refresh:
  assumes "map (\<lambda>c. (fst c, ao_status (snd c), ao_time (snd c))) ys
         = map (\<lambda>c. (fst c, ao_status (snd c), ao_time (snd c))) xs"
    and "\<forall>c \<in> set ys. M (fst c) = Some (snd c)"
  shows "filter (\<lambda>d. ao_status (snd d) = ''active'' \<and> ao_time (snd d) = qt) ys
       = map (\<lambda>c. (fst c, the (M (fst c))))
           (filter (\<lambda>d. ao_status (snd d) = ''active'' \<and> ao_time (snd d) = qt) xs)"
  using assms
proof (induction xs arbitrary: ys)
  case Nil
  then show ?case by simp
next
  case (Cons x xs)
  then obtain y ys' where ys: "ys = y # ys'" by (cases ys) auto
  have h: "fst y = fst x" "ao_status (snd y) = ao_status (snd x)"
    "ao_time (snd y) = ao_time (snd x)"
    "map (\<lambda>c. (fst c, ao_status (snd c), ao_time (snd c))) ys'
         = map (\<lambda>c. (fst c, ao_status (snd c), ao_time (snd c))) xs"
    using Cons.prems(1) by (simp_all add: ys)
  have m: "M (fst x) = Some (snd y)" "\<forall>c \<in> set ys'. M (fst c) = Some (snd c)"
    using Cons.prems(2) h(1) by (simp_all add: ys)
  have y: "y = (fst x, the (M (fst x)))"
    using m(1) h(1) by (cases y) simp
  show ?case
    using Cons.IH [OF h(4) m(2)] h(2,3) y by (simp add: ys)
qed

lemma process_candidate_processed:
  "processed st \<le> processed (process_candidate e c st)
   \<and> (processed (process_candidate e c st) = processed st \<longrightarrow>
        db (process_candidate e c st) = db st)"
  using process_candidate_cases [of "snd c" e "fst c" st]
  by (elim disjE exE conjE) simp_all

lemma process_all_processed:
  "processed st \<le> processed (process_all e cs st)
   \<and> (processed (process_all e cs st) = processed st \<longrightarrow> db (process_all e cs st) = db st)"
proof (induction cs arbitrary: st)
  case Nil
  then show ?case by simp
next
  case (Cons c cs)
  show ?case
    using Cons.IH [of "process_candidate e c st"] process_candidate_processed [of st e c]
    by auto
qed

lemma executeAutoOrders_ok:
  assumes "adminDbFailure e = None" and "queryFailure e = None"
  shows "executeAutoOrders e overrideTime s =
    (let docs = snapshot (queryTime e overrideTime) s;
         st = process_all e docs
           \<lparr>db = s, processed = 0, succeeded = 0, failed = 0, skipped = 0, errors = []\<rparr>
     in (\<lparr>success = True,
          r_time = queryTime e overrideTime,
          r_day = ist_day (ist e),
          r_date = ist_dateStr (ist e),
          candidates = length docs,
          r_skipped = skipped st,
          r_processed = processed st,
          r_succeeded = succeeded st,
          r_failed = failed st,
          r_errors = errors st,
          r_message = (if docs = []
            then Some (''No active auto orders for '' @ queryTime e overrideTime @ '' IST'')
            else None)\<rparr>, db st))"
  using assms by (simp add: executeAutoOrders_def Let_def)


lemma process_candidate_touched:
  assumes "map_of (autoOrders (db (process_candidate e c st))) k = Some d"
  shows "map_of (autoOrders (db st)) k = Some d
    \<or> ao_lastExecutedDate d = JStr (ist_dateStr (ist e))"
proof -
  obtain k' ao where c: "c = (k', ao)" by (cases c)
  let ?tc = "ao_itemPrice ao * ao_quantity ao"
  consider (same) "db (process_candidate e c st) = db st"
    | (commit) u m s' where "users (db st) (doc_key (ao_userId ao)) = Some u"
        "menuItems (db st) (doc_key (ao_itemId ao)) = Some m"
        "commit (success_writes e k' ao (doc_key (ao_userId ao)) (doc_key (ao_itemId ao)) u ?tc (nullish (mi_quantity m) 0)) (db st) = Some s'"
        "db (process_candidate e c st) = s'"
    using process_candidate_cases [of ao e k' st] unfolding c
    by (elim disjE exE conjE) simp_all
  then show ?thesis
  proof cases
    case same
    then show ?thesis using assms by simp
  next
    case commit
    show ?thesis
      using assms commit(4) commit_success_effect(3) [OF commit(3) commit(1,2)]
      by (auto simp: map_of_update_doc split: if_splits)
  qed
qed

lemma process_all_touched:
  assumes "map_of (autoOrders (db (process_all e cs st))) k = Some d"
  shows "map_of (autoOrders (db st)) k = Some d
    \<or> ao_lastExecutedDate d = JStr (ist_dateStr (ist e))"
  using assms
proof (induction cs arbitrary: st)
  case Nil
  then show ?case by simp
next
  case (Cons c cs)
  then have "map_of (autoOrders (db (process_candidate e c st))) k = Some d
    \<or> ao_lastExecutedDate d = JStr (ist_dateStr (ist e))"
    by simp
  then show ?case
    using process_candidate_touched [of e c st k d] by blast
qed

lemma first_run_store2:
  "fst (executeAutoOrders env0 (Some ''09:00'') store2) =
      \<lparr>success = True, r_time = ''09:00'', r_day = Tue, r_date = ''2024-01-02'',
        candidates = 2, r_skipped = 0, r_processed = 2, r_succeeded = 1, r_failed = 1,
        r_errors = [''a0: menu item not found''], r_message = None\<rparr>"
proof -
  let ?ao = "ao0\<lparr>ao_itemId := ''m9''\<rparr>"
  let ?st = "st2\<lparr>processed := 1, errors := [''a0: menu item not found''], failed := 1\<rparr>"
  have h1: "shouldRun ?ao (ist_day (ist env0))"
    by (simp add: shouldRun_def ao0_def)
  have h2: "ao_lastExecutedDate ?ao \<noteq> JStr (ist_dateStr (ist env0))"
    by (simp add: ao0_def)
  have h3: "snd (txn_body env0 ''a0'' ?ao (ao_itemPrice ?ao * ao_quantity ?ao) (db st2))
      = Inl ''ITEM_NOT_FOUND''"
    by (simp add: txn_body_result plain_id st2_def store2_def store0_def ao0_def)
  have p1: "process_candidate env0 (''a0'', ?ao) st2 = ?st"
    using process_candidate_failed [OF h1 h2 h3] by (simp add: st2_def error_entry_def)
  have p2: "succeeded (process_candidate env0 (''a1'', ao0) ?st) = 1
    \<and> processed (process_candidate env0 (''a1'', ao0) ?st) = 2
    \<and> failed (process_candidate env0 (''a1'', ao0) ?st) = 1
    \<and> skipped (process_candidate env0 (''a1'', ao0) ?st) = 0
    \<and> errors (process_candidate env0 (''a1'', ao0) ?st) = [''a0: menu item not found'']"
    by (simp add: process_candidate_def shouldRun_def runTransaction_def txn_body_def doc_ref_valid plain_id
        success_writes_def Let_def nullish_def env0_def ao0_def st2_def store2_def store0_def
        user0_def item0_def)
  have q: "snapshot (queryTime env0 (Some ''09:00'')) store2 = [(''a0'', ?ao), (''a1'', ao0)]"
    by (simp add: snapshot_def queryTime_def store2_def store0_def ao0_def)
  have e: "adminDbFailure env0 = None" "queryFailure env0 = None"
    by (simp_all add: env0_def)
  show ?thesis
    using p2
    by (simp add: executeAutoOrders_ok [OF e] q Let_def st2_def [symmetric] p1)
      (simp add: queryTime_def env0_def)
qed

subsection \<open>Runs from stores that agree up to defaulted fields\<close>

lemma user_eqv_fields:
  assumes "user_eqv u u'"
  shows "u_name u' = u_name u" "u_email u' = u_email u" "u_rollNumber u' = u_rollNumber u"
    "nullish (u_walletBalance u') 0 = nullish (u_walletBalance u) 0"
proof -
  have "u' = u\<lparr>u_walletBalance := u_walletBalance u'\<rparr>"
    using assms by (simp add: user_eqv_def)
  then have "u_name u' = u_name (u\<lparr>u_walletBalance := u_walletBalance u'\<rparr>)"
    "u_email u' = u_email (u\<lparr>u_walletBalance := u_walletBalance u'\<rparr>)"
    "u_rollNumber u' = u_rollNumber (u\<lparr>u_walletBalance := u_walletBalance u'\<rparr>)"
    by simp_all
  then show "u_name u' = u_name u" "u_email u' = u_email u" "u_rollNumber u' = u_rollNumber u"
    by simp_all
  show "nullish (u_walletBalance u') 0 = nullish (u_walletBalance u) 0"
    using assms by (simp add: user_eqv_def)
qed

lemma success_writes_eqv:
  assumes "user_eqv u u'"
  shows "success_writes e k ao ur ir u' tc cs = success_writes e k ao ur ir u tc cs"
  by (simp add: success_writes_def user_eqv_fields [OF assms])

lemma txn_body_eqv:
  assumes "store_eqv s s'"
  shows "txn_body e k ao tc s' = txn_body e k ao tc s"
proof -
  have u: "\<And>a. rel_option user_eqv (users s a) (users s' a)"
    and m: "\<And>i. rel_option item_eqv (menuItems s i) (menuItems s' i)"
    using assms by (simp_all add: store_eqv_def)
  show ?thesis
  proof (cases "doc_ref (docPathError e) (ao_userId ao)")
    case (Inl msg)
    then show ?thesis by (simp add: txn_body_def)
  next
    case ur: (Inr ur)
    show ?thesis
    proof (cases "users s ur")
      case None
      then have "users s' ur = None" using u [of ur] by simp
      then show ?thesis using None ur by (simp add: txn_body_def)
    next
      case (Some ud)
      then obtain ud' where ud': "users s' ur = Some ud'" and ue: "user_eqv ud ud'"
        using u [of ur] by (cases "users s' ur") simp_all
      show ?thesis
      proof (cases "doc_ref (docPathError e) (ao_itemId ao)")
        case (Inl msg)
        then show ?thesis using ur Some ud' by (simp add: txn_body_def)
      next
        case ir: (Inr ir)
        show ?thesis
        proof (cases "menuItems s ir")
          case None
          then have "menuItems s' ir = None" using m [of ir] by simp
          then show ?thesis using None ur ir Some ud' by (simp add: txn_body_def)
        next
          case md: (Some md)
          then obtain md' where md': "menuItems s' ir = Some md'" and me: "item_eqv md md'"
            using m [of ir] by (cases "menuItems s' ir") simp_all
          have q: "nullish (mi_quantity md') 0 = nullish (mi_quantity md) 0"
            and a: "(mi_available md' = Some False) = (mi_available md = Some False)"
            using me by (simp_all add: item_eqv_def)
          show ?thesis
            using ur ir Some ud' md md'
            by (simp add: txn_body_def Let_def q a user_eqv_fields(4) [OF ue]
                success_writes_eqv [OF ue])
        qed
      qed
    qed
  qed
qed


lemma store_eqvI:
  assumes "\<And>a. rel_option user_eqv (users s a) (us a)"
    and "\<And>i. rel_option item_eqv (menuItems s i) (ms i)"
  shows "store_eqv s (s\<lparr>users := us, menuItems := ms\<rparr>)"
  using assms by (simp add: store_eqv_def)

lemma user_eqv_refl: "user_eqv u u"
  by (simp add: user_eqv_def)

lemma item_eqv_refl: "item_eqv m m"
  by (simp add: item_eqv_def)

lemma user_eqv_increment:
  assumes "user_eqv u u'"
  shows "u'\<lparr>u_walletBalance := increment n (u_walletBalance u')\<rparr>
       = u\<lparr>u_walletBalance := increment n (u_walletBalance u)\<rparr>"
proof -
  have 1: "u' = u\<lparr>u_walletBalance := u_walletBalance u'\<rparr>"
    and 2: "nullish (u_walletBalance u) 0 = nullish (u_walletBalance u') 0"
    using assms by (simp_all add: user_eqv_def)
  have "u'\<lparr>u_walletBalance := increment n (u_walletBalance u')\<rparr>
      = u\<lparr>u_walletBalance := u_walletBalance u'\<rparr>
         \<lparr>u_walletBalance := increment n (u_walletBalance u')\<rparr>"
    using 1 by simp
  then show ?thesis by (simp add: increment_nullish 2)
qed

lemma item_eqv_update:
  assumes "item_eqv m m'"
  shows "m'\<lparr>mi_quantity := q, mi_available := a, mi_updatedAt := t\<rparr>
       = m\<lparr>mi_quantity := q, mi_available := a, mi_updatedAt := t\<rparr>"
proof -
  have 1: "m' = m\<lparr>mi_quantity := mi_quantity m', mi_available := mi_available m'\<rparr>"
    using assms by (simp add: item_eqv_def)
  have "m'\<lparr>mi_quantity := q, mi_available := a, mi_updatedAt := t\<rparr>
      = m\<lparr>mi_quantity := mi_quantity m', mi_available := mi_available m'\<rparr>
         \<lparr>mi_quantity := q, mi_available := a, mi_updatedAt := t\<rparr>"
    using 1 by simp
  then show ?thesis by simp
qed

lemma apply_write_eqv:
  assumes "store_eqv s s'"
  shows "rel_option store_eqv (apply_write w s) (apply_write w s')"
proof -
  define us where "us = users s'"
  define ms where "ms = menuItems s'"
  have s': "s' = s\<lparr>users := us, menuItems := ms\<rparr>"
    and u: "\<And>a. rel_option user_eqv (users s a) (us a)"
    and m: "\<And>i. rel_option item_eqv (menuItems s i) (ms i)"
    using assms by (simp_all add: store_eqv_def us_def ms_def)
  show ?thesis
  proof (cases w)
    case (UpdateMenuItem k q a t)
    show ?thesis
    proof (cases "menuItems s k")
      case None
      then have "ms k = None" using m [of k] by simp
      then show ?thesis using None by (simp add: UpdateMenuItem s')
    next
      case (Some md)
      then obtain md' where md': "ms k = Some md'" and me: "item_eqv md md'"
        using m [of k] by (cases "ms k") simp_all
      show ?thesis
        using Some md' u m
        by (simp add: UpdateMenuItem s' store_eqv_def item_eqv_update [OF me] item_eqv_refl)
    qed
  next
    case (UpdateUserWallet k n)
    show ?thesis
    proof (cases "users s k")
      case None
      then have "us k = None" using u [of k] by simp
      then show ?thesis using None by (simp add: UpdateUserWallet s')
    next
      case (Some ud)
      then obtain ud' where ud': "us k = Some ud'" and ue: "user_eqv ud ud'"
        using u [of k] by (cases "us k") simp_all
      show ?thesis
        using Some ud' u m
        by (simp add: UpdateUserWallet s' store_eqv_def user_eqv_increment [OF ue]
            user_eqv_refl)
    qed
  next
    case (SetOrder d)
    then show ?thesis using u m by (simp add: s' store_eqv_def)
  next
    case (SetWalletTransaction d)
    then show ?thesis using u m by (simp add: s' store_eqv_def)
  next
    case (SetNotification d)
    then show ?thesis using u m by (simp add: s' store_eqv_def)
  next
    case (SetExecution d)
    then show ?thesis using u m by (simp add: s' store_eqv_def)
  next
    case (UpdateAutoOrderFailed k date t reason)
    then show ?thesis using u m by (simp add: s' store_eqv_def)
  next
    case (UpdateAutoOrderExecuted k date t)
    then show ?thesis using u m by (simp add: s' store_eqv_def)
  qed
qed

lemma commit_eqv:
  assumes "store_eqv s s'"
  shows "rel_option store_eqv (commit ws s) (commit ws s')"
  using assms
proof (induction ws arbitrary: s s')
  case Nil
  then show ?case by simp
next
  case (Cons w ws)
  show ?case
  proof (cases "apply_write w s")
    case None
    then have "apply_write w s' = None"
      using apply_write_eqv [OF Cons.prems, of w] by simp
    then show ?thesis using None by simp
  next
    case (Some t)
    then obtain t' where t': "apply_write w s' = Some t'" and e: "store_eqv t t'"
      using apply_write_eqv [OF Cons.prems, of w] by (cases "apply_write w s'") simp_all
    show ?thesis
      using Cons.IH [OF e] Some t' by simp
  qed
qed


lemma process_candidate_eqv:
  assumes "state_eqv st st'"
  shows "state_eqv (process_candidate e c st) (process_candidate e c st')"
proof -
  obtain k ao where c: "c = (k, ao)" by (cases c)
  let ?tc = "ao_itemPrice ao * ao_quantity ao"
  have st': "st' = st\<lparr>db := db st'\<rparr>" and s: "store_eqv (db st) (db st')"
    using assms by (simp_all add: state_eqv_def)
  have f: "processed st' = processed st" "succeeded st' = succeeded st"
    "failed st' = failed st" "skipped st' = skipped st" "errors st' = errors st"
    by (subst st', simp)+
  have b: "txn_body e k ao ?tc (db st') = txn_body e k ao ?tc (db st)"
    by (rule txn_body_eqv [OF s])
  obtain ws r where w: "txn_body e k ao ?tc (db st) = (ws, r)"
    by (cases "txn_body e k ao ?tc (db st)")
  have g: "\<And>x y z. st'\<lparr>processed := x, db := y, succeeded := z\<rparr>
      = st\<lparr>processed := x, db := y, succeeded := z\<rparr>"
    "\<And>x y z v. st'\<lparr>processed := x, db := y, errors := z, failed := v\<rparr>
      = st\<lparr>processed := x, db := y, errors := z, failed := v\<rparr>"
    "\<And>x. st'\<lparr>skipped := x\<rparr> = st\<lparr>skipped := x, db := db st'\<rparr>"
    by (subst st', simp)+
  show ?thesis
  proof (cases "\<not> shouldRun ao (ist_day (ist e))
      \<or> ao_lastExecutedDate ao = JStr (ist_dateStr (ist e))")
    case True
    then show ?thesis
      using s by (auto simp: process_candidate_def c f g state_eqv_def)
  next
    case False
    show ?thesis
    proof (cases r)
      case (Inl err)
      then show ?thesis
        using False s w b
        by (simp add: process_candidate_def c Let_def runTransaction_def f g state_eqv_def)
    next
      case (Inr u)
      show ?thesis
      proof (cases "commit ws (db st)")
        case None
        then have "commit ws (db st') = None"
          using commit_eqv [OF s, of ws] by simp
        then show ?thesis
          using None False s w b Inr
          by (simp add: process_candidate_def c Let_def runTransaction_def f g state_eqv_def)
      next
        case (Some t)
        then obtain t' where t': "commit ws (db st') = Some t'" and e: "store_eqv t t'"
          using commit_eqv [OF s, of ws] by (cases "commit ws (db st')") simp_all
        show ?thesis
          using Some t' e False w b Inr
          by (simp add: process_candidate_def c Let_def runTransaction_def f g state_eqv_def)
      qed
    qed
  qed
qed

lemma process_all_eqv:
  assumes "state_eqv st st'"
  shows "state_eqv (process_all e cs st) (process_all e cs st')"
  using assms
proof (induction cs arbitrary: st st')
  case Nil
  then show ?case by simp
next
  case (Cons c cs)
  show ?case
    using Cons.IH [OF process_candidate_eqv [OF Cons.prems, of e c]] by simp
qed

lemma executeAutoOrders_eqv:
  assumes "store_eqv s s'"
  shows "fst (executeAutoOrders e overrideTime s') = fst (executeAutoOrders e overrideTime s)"
proof -
  let ?i = "\<lambda>s. \<lparr>db = s, processed = 0, succeeded = 0, failed = 0, skipped = 0, errors = []\<rparr>"
  have "s' = s\<lparr>users := users s', menuItems := menuItems s'\<rparr>"
    using assms by (simp add: store_eqv_def)
  then have "autoOrders s' = autoOrders (s\<lparr>users := users s', menuItems := menuItems s'\<rparr>)"
    by simp
  then have a: "autoOrders s' = autoOrders s" by simp
  have q: "snapshot (queryTime e overrideTime) s' = snapshot (queryTime e overrideTime) s"
    by (simp add: snapshot_def a)
  have "state_eqv (?i s) (?i s')"
    using assms by (simp add: state_eqv_def)
  then have "state_eqv (process_all e (snapshot (queryTime e overrideTime) s) (?i s))
      (process_all e (snapshot (queryTime e overrideTime) s) (?i s'))"
    by (rule process_all_eqv)
  then have p: "process_all e (snapshot (queryTime e overrideTime) s) (?i s')
      = (process_all e (snapshot (queryTime e overrideTime) s) (?i s))
          \<lparr>db := db (process_all e (snapshot (queryTime e overrideTime) s) (?i s'))\<rparr>"
    by (simp add: state_eqv_def)
  have c: "processed (process_all e (snapshot (queryTime e overrideTime) s) (?i s'))
        = processed (process_all e (snapshot (queryTime e overrideTime) s) (?i s))"
    "succeeded (process_all e (snapshot (queryTime e overrideTime) s) (?i s'))
        = succeeded (process_all e (snapshot (queryTime e overrideTime) s) (?i s))"
    "failed (process_all e (snapshot (queryTime e overrideTime) s) (?i s'))
        = failed (process_all e (snapshot (queryTime e overrideTime) s) (?i s))"
    "skipped (process_all e (snapshot (queryTime e overrideTime) s) (?i s'))
        = skipped (process_all e (snapshot (queryTime e overrideTime) s) (?i s))"
    "errors (process_all e (snapshot (queryTime e overrideTime) s) (?i s'))
        = errors (process_all e (snapshot (queryTime e overrideTime) s) (?i s))"
    by (subst p, simp)+
  show ?thesis
    by (simp add: executeAutoOrders_def q c Let_def split: option.split)
qed

lemma default_balance_eqv:
  assumes "users s a = Some u" and "u_walletBalance u = None"
  shows "store_eqv s (s\<lparr>users := (users s)(a \<mapsto> u\<lparr>u_walletBalance := Some 0\<rparr>)\<rparr>)"
  using assms
  by (auto simp: store_eqv_def user_eqv_def item_eqv_def nullish_def option.rel_refl_strong)

lemma default_quantity_eqv:
  assumes "menuItems s i = Some m" and "mi_quantity m = None"
  shows "store_eqv s (s\<lparr>menuItems := (menuItems s)(i \<mapsto> m\<lparr>mi_quantity := Some 0\<rparr>)\<rparr>)"
  using assms
  by (auto simp: store_eqv_def user_eqv_def item_eqv_def nullish_def option.rel_refl_strong)

lemma default_available_eqv:
  assumes "menuItems s i = Some m" and "mi_available m = None"
  shows "store_eqv s (s\<lparr>menuItems := (menuItems s)(i \<mapsto> m\<lparr>mi_available := Some True\<rparr>)\<rparr>)"
  using assms
  by (auto simp: store_eqv_def user_eqv_def item_eqv_def nullish_def option.rel_refl_strong)


lemma process_candidate_grows:
  "(\<exists>es. errors (process_candidate e c st) = errors st @ es)
   \<and> failed st \<le> failed (process_candidate e c st)
   \<and> succeeded st \<le> succeeded (process_candidate e c st)"
  using process_candidate_cases [of "snd c" e "fst c" st]
  by (elim disjE exE conjE) simp_all

lemma process_all_grows:
  "(\<exists>es. errors (process_all e cs st) = errors st @ es)
   \<and> failed st \<le> failed (process_all e cs st)
   \<and> succeeded st \<le> succeeded (process_all e cs st)"
proof (induction cs arbitrary: st)
  case Nil
  then show ?case by simp
next
  case (Cons c cs)
  show ?case
    using Cons.IH [of "process_candidate e c st"] process_candidate_grows [of e c st]
    by (auto simp: le_trans)
qed

lemma has_doc_mem: "(k, d) \<in> set xs \<Longrightarrow> has_doc k xs"
  by (induction xs) auto

lemma process_candidate_committed:
  assumes "shouldRun ao (ist_day (ist e))"
    and "ao_lastExecutedDate ao \<noteq> JStr (ist_dateStr (ist e))"
    and "snd (txn_body e k ao (ao_itemPrice ao * ao_quantity ao) (db st)) = Inr ()"
    and "has_doc k (autoOrders (db st))"
  shows "succeeded (process_candidate e (k, ao) st) = succeeded st + 1"
proof -
  let ?tc = "ao_itemPrice ao * ao_quantity ao"
  obtain u m where u: "users (db st) (doc_key (ao_userId ao)) = Some u"
    and m: "menuItems (db st) (doc_key (ao_itemId ao)) = Some m"
    and b: "txn_body e k ao ?tc (db st) =
            (success_writes e k ao (doc_key (ao_userId ao)) (doc_key (ao_itemId ao)) u ?tc
               (nullish (mi_quantity m) 0), Inr ())"
    using txn_body_cases [of e k ao ?tc "db st"] assms(3) by auto
  have "commit (success_writes e k ao (doc_key (ao_userId ao)) (doc_key (ao_itemId ao)) u ?tc
               (nullish (mi_quantity m) 0)) (db st) \<noteq> None"
    using commit_success_writes [OF u m, of e k ?tc "nullish (mi_quantity m) 0"] assms(4)
    by simp
  then show ?thesis
    using assms(1,2) b
    by (auto simp: process_candidate_def runTransaction_def Let_def)
qed

lemma process_all_append:
  "process_all e (xs @ ys) st = process_all e ys (process_all e xs st)"
  by (induction xs arbitrary: st) simp_all

lemma executeAutoOrders_start:
  assumes "adminDbFailure e = None" and "queryFailure e = None"
    and "snapshot (queryTime e overrideTime) s = pre @ c # cs"
  shows "r_failed (fst (executeAutoOrders e overrideTime s))
      = failed (process_all e cs (process_candidate e c (process_all e pre (start s))))"
    and "r_succeeded (fst (executeAutoOrders e overrideTime s))
      = succeeded (process_all e cs (process_candidate e c (process_all e pre (start s))))"
    and "r_errors (fst (executeAutoOrders e overrideTime s))
      = errors (process_all e cs (process_candidate e c (process_all e pre (start s))))"
  using executeAutoOrders_ok [OF assms(1,2), of overrideTime s]
  by (simp_all add: assms(3) Let_def process_all_append start_def)

lemma candidate_fails:
  assumes "adminDbFailure e = None" and "queryFailure e = None"
    and "snapshot (queryTime e overrideTime) s = pre @ (k, ao) # cs"
    and "shouldRun ao (ist_day (ist e))"
    and "ao_lastExecutedDate ao \<noteq> JStr (ist_dateStr (ist e))"
    and "snd (txn_body e k ao (ao_itemPrice ao * ao_quantity ao)
           (db (process_all e pre (start s)))) = Inl err"
  shows "failed (process_all e pre (start s)) + 1
      \<le> r_failed (fst (executeAutoOrders e overrideTime s))"
    and "\<exists>es. r_errors (fst (executeAutoOrders e overrideTime s))
      = errors (process_all e pre (start s)) @ error_entry k err # es"
proof -
  let ?st = "process_all e pre (start s)"
  let ?st1 = "process_candidate e (k, ao) ?st"
  have p: "?st1 = ?st\<lparr>processed := processed ?st + 1,
      errors := errors ?st @ [error_entry k err], failed := failed ?st + 1\<rparr>"
    by (rule process_candidate_failed [OF assms(4,5,6)])
  have f: "failed ?st1 = failed ?st + 1" and e: "errors ?st1 = errors ?st @ [error_entry k err]"
    by (subst p, simp)+
  obtain es where g: "errors (process_all e cs ?st1) = errors ?st1 @ es"
    "failed ?st1 \<le> failed (process_all e cs ?st1)"
    using process_all_grows [of e cs ?st1] by auto
  note r = executeAutoOrders_start [OF assms(1,2,3)]
  show "failed ?st + 1 \<le> r_failed (fst (executeAutoOrders e overrideTime s))"
    using g(2) f by (simp add: r(1))
  show "\<exists>es. r_errors (fst (executeAutoOrders e overrideTime s))
      = errors ?st @ error_entry k err # es"
    using g(1) e by (simp add: r(3))
qed

lemma has_doc_keys: "has_doc k xs \<longleftrightarrow> k \<in> set (map fst xs)"
  by (induction xs) auto

lemma candidate_commits:
  assumes "adminDbFailure e = None" and "queryFailure e = None"
    and "snapshot (queryTime e overrideTime) s = pre @ (k, ao) # cs"
    and "shouldRun ao (ist_day (ist e))"
    and "ao_lastExecutedDate ao \<noteq> JStr (ist_dateStr (ist e))"
    and "snd (txn_body e k ao (ao_itemPrice ao * ao_quantity ao)
           (db (process_all e pre (start s)))) = Inr ()"
  shows "succeeded (process_all e pre (start s)) + 1
      \<le> r_succeeded (fst (executeAutoOrders e overrideTime s))"
proof -
  let ?st = "process_all e pre (start s)"
  let ?st1 = "process_candidate e (k, ao) ?st"
  have "(k, ao) \<in> set (snapshot (queryTime e overrideTime) s)"
    by (simp add: assms(3))
  then have "(k, ao) \<in> set (autoOrders s)"
    by (simp add: snapshot_def)
  then have "k \<in> set (map fst (autoOrders s))"
    by force
  moreover have "map fst (map (\<lambda>c. (fst c, ao_status (snd c), ao_time (snd c)))
        (autoOrders (db ?st)))
      = map fst (map (\<lambda>c. (fst c, ao_status (snd c), ao_time (snd c))) (autoOrders s))"
    using process_all_shape [of e pre "start s"] by (simp add: start_def)
  then have "map fst (autoOrders (db ?st)) = map fst (autoOrders s)"
    by (simp add: o_def)
  ultimately have h: "has_doc k (autoOrders (db ?st))"
    by (simp add: has_doc_keys)
  have p: "succeeded ?st1 = succeeded ?st + 1"
    by (rule process_candidate_committed [OF assms(4,5,6) h])
  have "succeeded ?st1 \<le> succeeded (process_all e cs ?st1)"
    using process_all_grows [of e cs ?st1] by simp
  then show ?thesis
    using p by (simp add: executeAutoOrders_start(2) [OF assms(1,2,3)])
qed

lemma single_candidate_fails:
  assumes "adminDbFailure e = None" and "queryFailure e = None"
    and "snapshot (queryTime e overrideTime) s = [(k, ao)]"
    and "shouldRun ao (ist_day (ist e))"
    and "ao_lastExecutedDate ao \<noteq> JStr (ist_dateStr (ist e))"
    and "snd (txn_body e k ao (ao_itemPrice ao * ao_quantity ao) s) = Inl err"
  shows "executeAutoOrders e overrideTime s =
      (\<lparr>success = True, r_time = queryTime e overrideTime, r_day = ist_day (ist e),
        r_date = ist_dateStr (ist e), candidates = 1, r_skipped = 0, r_processed = 1,
        r_succeeded = 0, r_failed = 1, r_errors = [error_entry k err],
        r_message = None\<rparr>, s)"
proof -
  have p: "process_candidate e (k, ao) (start s) =
      \<lparr>db = s, processed = 1, succeeded = 0, failed = 1, skipped = 0,
        errors = [error_entry k err]\<rparr>"
    using process_candidate_failed [of ao e k "start s" err] assms(4,5,6)
    by (simp add: start_def)
  show ?thesis
    using executeAutoOrders_ok [OF assms(1,2), of overrideTime s]
    by (simp add: assms(3) Let_def p start_def [symmetric])
qed


lemma snapshot_store1:
  "snapshot (queryTime env0 None) (store1 x y) = [(''a1'', ao0)]"
  by (simp add: snapshot_def queryTime_def env0_def store1_def store0_def ao0_def)

lemma run_store1_basics:
  "adminDbFailure env0 = None" "queryFailure env0 = None"
  "shouldRun ao0 (ist_day (ist env0))"
  "ao_lastExecutedDate ao0 \<noteq> JStr (ist_dateStr (ist env0))"
  "valid_doc_path (ao_userId ao0)" "valid_doc_path (ao_itemId ao0)"
  "doc_key (ao_userId ao0) = ''u1''" "doc_key (ao_itemId ao0) = ''m1''"
  by (simp_all add: env0_def shouldRun_def ao0_def plain_id)

subsection \<open>Schedule check and duplicate guard\<close>

text \<open>
  C5. The schedule check answers: due for \<^verbatim>\<open>daily\<close> on every day; for \<^verbatim>\<open>weekdays\<close>
  exactly on Monday to Friday; for \<^verbatim>\<open>custom\<close> exactly when today's weekday is an element
  of the configured array, and not due when \<^verbatim>\<open>customDays\<close> is not an array (absent or
  malformed); not due for every other value of \<^verbatim>\<open>frequency\<close>. A candidate that is not
  due only increments \<^verbatim>\<open>skipped\<close>: the store, the other counters and the error list
  stay as they are, so the check never raises an error.
\<close>

theorem schedule_evaluator:
  "(ao_frequency ao = JStr ''daily'' \<longrightarrow> shouldRun ao day)
   \<and> (ao_frequency ao = JStr ''weekdays'' \<longrightarrow>
        (shouldRun ao day \<longleftrightarrow> day \<in> {Mon, Tue, Wed, Thu, Fri}))
   \<and> (ao_frequency ao = JStr ''custom'' \<longrightarrow>
        (\<forall>xs. ao_customDays ao = JArr xs \<longrightarrow>
           (shouldRun ao day \<longleftrightarrow> JStr (day_string day) \<in> set xs)))
   \<and> (ao_frequency ao = JStr ''custom'' \<and> \<not> isArray (ao_customDays ao) \<longrightarrow>
        \<not> shouldRun ao day)
   \<and> (ao_frequency ao \<notin> {JStr ''daily'', JStr ''weekdays'', JStr ''custom''} \<longrightarrow>
        \<not> shouldRun ao day)
   \<and> (\<not> shouldRun ao (ist_day (ist e)) \<longrightarrow>
        process_candidate e (k, ao) st = st\<lparr>skipped := skipped st + 1\<rparr>)"
  by (simp add: shouldRun_def WEEKDAYS_def process_candidate_def)

theorem schedule_evaluator_witness:
  "shouldRun ao0 Sun
   \<and> shouldRun (ao0\<lparr>ao_frequency := JStr ''weekdays''\<rparr>) Fri
   \<and> \<not> shouldRun (ao0\<lparr>ao_frequency := JStr ''weekdays''\<rparr>) Sat
   \<and> shouldRun (ao0\<lparr>ao_frequency := JStr ''custom'',
          ao_customDays := JArr [JStr ''Mon'', JStr ''Sat'']\<rparr>) Sat
   \<and> \<not> shouldRun (ao0\<lparr>ao_frequency := JStr ''custom'',
          ao_customDays := JArr [JStr ''Mon'']\<rparr>) Tue
   \<and> \<not> shouldRun (ao0\<lparr>ao_frequency := JStr ''custom''\<rparr>) Tue
   \<and> \<not> shouldRun (ao0\<lparr>ao_frequency := JStr ''custom'', ao_customDays := JStr ''Mon''\<rparr>) Mon
   \<and> \<not> shouldRun (ao0\<lparr>ao_frequency := JStr ''monthly''\<rparr>) Mon
   \<and> process_candidate env0
        (''a1'', ao0\<lparr>ao_frequency := JStr ''custom'', ao_customDays := JArr [JStr ''Mon'']\<rparr>)
        st0
      = st0\<lparr>skipped := 1\<rparr>"
  using schedule_evaluator [of ao0 Sun]
    schedule_evaluator [of "ao0\<lparr>ao_frequency := JStr ''weekdays''\<rparr>" Fri]
    schedule_evaluator [of "ao0\<lparr>ao_frequency := JStr ''weekdays''\<rparr>" Sat]
    schedule_evaluator [of "ao0\<lparr>ao_frequency := JStr ''custom'',
       ao_customDays := JArr [JStr ''Mon'', JStr ''Sat'']\<rparr>" Sat]
    schedule_evaluator [of "ao0\<lparr>ao_frequency := JStr ''custom'',
       ao_customDays := JArr [JStr ''Mon'']\<rparr>" Tue env0 "''a1''" st0]
    schedule_evaluator [of "ao0\<lparr>ao_frequency := JStr ''custom''\<rparr>" Tue]
    schedule_evaluator [of "ao0\<lparr>ao_frequency := JStr ''custom'',
       ao_customDays := JStr ''Mon''\<rparr>" Mon]
    schedule_evaluator [of "ao0\<lparr>ao_frequency := JStr ''monthly''\<rparr>" Mon]
  by (simp add: ao0_def env0_def st0_def)

text \<open>
  C6. A candidate whose \<^verbatim>\<open>lastExecutedDate\<close>, in the document that the selection query
  returned, is today's date string is skipped: \<^verbatim>\<open>skipped\<close> goes up by one and nothing
  else changes, neither \<^verbatim>\<open>processed\<close> nor \<^verbatim>\<open>failed\<close> nor the store, whatever the store
  holds at that moment. The transaction is therefore not attempted.
\<close>

theorem duplicate_guard:
  assumes "ao_lastExecutedDate ao = JStr (ist_dateStr (ist e))"
  shows "process_candidate e (k, ao) st = st\<lparr>skipped := skipped st + 1\<rparr>"
  using assms by (simp add: process_candidate_def)

theorem duplicate_guard_witness:
  "ao_lastExecutedDate (ao0\<lparr>ao_lastExecutedDate := JStr ''2024-01-02''\<rparr>)
     = JStr (ist_dateStr (ist env0))
   \<and> process_candidate env0 (''a1'', ao0\<lparr>ao_lastExecutedDate := JStr ''2024-01-02''\<rparr>) st0
     = st0\<lparr>skipped := 1\<rparr>"
  using duplicate_guard [of "ao0\<lparr>ao_lastExecutedDate := JStr ''2024-01-02''\<rparr>" env0 "''a1''" st0]
  by (simp add: env0_def st0_def)

subsection \<open>The atomic operation\<close>

text \<open>
  C4 (as stated, refuted). The claim reports every absent account as
  \<^verbatim>\<open>USER_NOT_FOUND\<close> and every absent item as \<^verbatim>\<open>ITEM_NOT_FOUND\<close>. For an auto order
  whose \<^verbatim>\<open>userId\<close> is the empty string, in a store without any user, the body throws
  the path error of \<^verbatim>\<open>doc\<close> instead, and the candidate is reported through the
  fallback branch of the \<^verbatim>\<open>catch\<close>; likewise for the \<^verbatim>\<open>itemId\<close> \<^verbatim>\<open>a/b\<close>, which names no
  menu item.
\<close>

theorem validation_order_counterexample:
  "users (store1 None None) (doc_key []) = None
   \<and> txn_body env0 ''a1'' (ao0\<lparr>ao_userId := []\<rparr>) 20 (store1 None None)
       = ([], Inl (sdk_path_error []))
   \<and> sdk_path_error [] \<noteq> ''USER_NOT_FOUND''
   \<and> errors (process_candidate env0 (''a1'', ao0\<lparr>ao_userId := []\<rparr>)
         (st0\<lparr>db := store1 None None\<rparr>))
       = [''a1: '' @ sdk_path_error []]
   \<and> menuItems (store1 (Some user0) None) (doc_key ''a/b'') = None
   \<and> txn_body env0 ''a1'' (ao0\<lparr>ao_itemId := ''a/b''\<rparr>) 20 (store1 (Some user0) None)
       = ([], Inl (sdk_path_error ''a/b''))
   \<and> sdk_path_error ''a/b'' \<noteq> ''ITEM_NOT_FOUND''
   \<and> errors (process_candidate env0 (''a1'', ao0\<lparr>ao_itemId := ''a/b''\<rparr>)
         (st0\<lparr>db := store1 (Some user0) None\<rparr>))
       = [''a1: '' @ sdk_path_error ''a/b'']"
proof -
  have v: "\<not> valid_doc_path []" "\<not> valid_doc_path ''a/b''" "valid_doc_path ''u1''"
    "doc_key ''u1'' = ''u1''"
    by (simp_all add: valid_doc_path_def doc_key_def split_path_def)
  have m: "sdk_path_error [] \<noteq> ''USER_NOT_FOUND''" "sdk_path_error ''a/b'' \<noteq> ''ITEM_NOT_FOUND''"
    by (simp_all add: sdk_path_error_def)
  have b1: "txn_body env0 ''a1'' (ao0\<lparr>ao_userId := []\<rparr>) 20 (store1 None None)
      = ([], Inl (sdk_path_error []))"
    by (simp add: txn_body_def doc_ref_valid v env0_def)
  have b2: "txn_body env0 ''a1'' (ao0\<lparr>ao_itemId := ''a/b''\<rparr>) 20 (store1 (Some user0) None)
      = ([], Inl (sdk_path_error ''a/b''))"
    by (simp add: txn_body_def doc_ref_valid v env0_def ao0_def store1_def Let_def)
  have h1: "\<And>ao. ao_frequency ao = JStr ''daily'' \<Longrightarrow> shouldRun ao (ist_day (ist env0))"
    by (simp add: shouldRun_def)
  have p1: "errors (process_candidate env0 (''a1'', ao0\<lparr>ao_userId := []\<rparr>)
         (st0\<lparr>db := store1 None None\<rparr>)) = [''a1: '' @ sdk_path_error []]"
    using process_candidate_failed [of "ao0\<lparr>ao_userId := []\<rparr>" env0 "''a1''"
        "st0\<lparr>db := store1 None None\<rparr>" "sdk_path_error []"] b1 h1
    by (simp add: ao0_def st0_def error_entry_def sdk_path_error_def)
  have p2: "errors (process_candidate env0 (''a1'', ao0\<lparr>ao_itemId := ''a/b''\<rparr>)
         (st0\<lparr>db := store1 (Some user0) None\<rparr>)) = [''a1: '' @ sdk_path_error ''a/b'']"
    using process_candidate_failed [of "ao0\<lparr>ao_itemId := ''a/b''\<rparr>" env0 "''a1''"
        "st0\<lparr>db := store1 (Some user0) None\<rparr>" "sdk_path_error ''a/b''"] b2 h1
    by (simp add: ao0_def st0_def error_entry_def sdk_path_error_def dquote_def)
  show ?thesis
    using b1 b2 m p1 p2 by (simp add: store1_def)
qed

text \<open>
  C4 (amended). The transaction body, called as the loop calls it (with the total
  \<^verbatim>\<open>itemPrice * quantity\<close>), proceeds in this order, and the first step that fails
  decides the error. It builds the user reference: a \<^verbatim>\<open>userId\<close> that \<^verbatim>\<open>doc\<close> rejects as
  a document path (it is empty, contains \<^verbatim>\<open>//\<close>, or has an even number of segments)
  gives the path error of the SDK. It reads the user: absent, \<^verbatim>\<open>USER_NOT_FOUND\<close> (the
  account of the specification is the user document of the code, and this is its
  account-not-found error). It builds the menu item reference: an \<^verbatim>\<open>itemId\<close> that
  \<^verbatim>\<open>doc\<close> rejects gives the path error. It reads the menu item: absent,
  \<^verbatim>\<open>ITEM_NOT_FOUND\<close>. In these four cases no write has been issued. With both
  documents read: \<^verbatim>\<open>available\<close> is \<^verbatim>\<open>false\<close>, \<^verbatim>\<open>ITEM_UNAVAILABLE\<close>; else the stock
  (0 when missing) is below the requested quantity, \<^verbatim>\<open>INSUFFICIENT_STOCK\<close>; else the
  balance (0 when missing) is below the total, \<^verbatim>\<open>INSUFFICIENT_BALANCE\<close>; else the body
  returns normally. A non-empty id without \<^verbatim>\<open>/\<close> is always accepted and names the
  document with that id.
\<close>

theorem validation_order:
  "(\<not> valid_doc_path (ao_userId ao) \<longrightarrow>
      txn_body e k ao (ao_itemPrice ao * ao_quantity ao) s
        = ([], Inl (docPathError e (ao_userId ao))))
   \<and> (valid_doc_path (ao_userId ao) \<and> users s (doc_key (ao_userId ao)) = None \<longrightarrow>
      txn_body e k ao (ao_itemPrice ao * ao_quantity ao) s = ([], Inl ''USER_NOT_FOUND''))
   \<and> (\<forall>u. valid_doc_path (ao_userId ao) \<and> users s (doc_key (ao_userId ao)) = Some u
        \<and> \<not> valid_doc_path (ao_itemId ao) \<longrightarrow>
      txn_body e k ao (ao_itemPrice ao * ao_quantity ao) s
        = ([], Inl (docPathError e (ao_itemId ao))))
   \<and> (\<forall>u. valid_doc_path (ao_userId ao) \<and> users s (doc_key (ao_userId ao)) = Some u
        \<and> valid_doc_path (ao_itemId ao) \<and> menuItems s (doc_key (ao_itemId ao)) = None \<longrightarrow>
      txn_body e k ao (ao_itemPrice ao * ao_quantity ao) s = ([], Inl ''ITEM_NOT_FOUND''))
   \<and> (\<forall>u m. valid_doc_path (ao_userId ao) \<and> users s (doc_key (ao_userId ao)) = Some u
        \<and> valid_doc_path (ao_itemId ao) \<and> menuItems s (doc_key (ao_itemId ao)) = Some m \<longrightarrow>
        (mi_available m = Some False \<longrightarrow>
           snd (txn_body e k ao (ao_itemPrice ao * ao_quantity ao) s) = Inl ''ITEM_UNAVAILABLE'')
      \<and> (mi_available m \<noteq> Some False \<and> nullish (mi_quantity m) 0 < ao_quantity ao \<longrightarrow>
           snd (txn_body e k ao (ao_itemPrice ao * ao_quantity ao) s) = Inl ''INSUFFICIENT_STOCK'')
      \<and> (mi_available m \<noteq> Some False \<and> \<not> nullish (mi_quantity m) 0 < ao_quantity ao
           \<and> nullish (u_walletBalance u) 0 < ao_itemPrice ao * ao_quantity ao \<longrightarrow>
           snd (txn_body e k ao (ao_itemPrice ao * ao_quantity ao) s) = Inl ''INSUFFICIENT_BALANCE'')
      \<and> (mi_available m \<noteq> Some False \<and> \<not> nullish (mi_quantity m) 0 < ao_quantity ao
           \<and> \<not> nullish (u_walletBalance u) 0 < ao_itemPrice ao * ao_quantity ao \<longrightarrow>
           snd (txn_body e k ao (ao_itemPrice ao * ao_quantity ao) s) = Inr ()))
   \<and> (\<forall>p. p \<noteq> [] \<and> CHR ''/'' \<notin> set p \<longrightarrow> valid_doc_path p \<and> doc_key p = p)
   \<and> \<not> valid_doc_path []"
proof -
  have a: "\<forall>p. p \<noteq> [] \<and> CHR ''/'' \<notin> set p \<longrightarrow> valid_doc_path p \<and> doc_key p = p"
    using plain_id by blast
  have b: "\<not> valid_doc_path []"
    by (simp add: valid_doc_path_def)
  show ?thesis
    using a b by (simp add: txn_body_def doc_ref_valid Let_def)
qed

theorem validation_order_witness:
  "txn_body env0 ''a1'' (ao0\<lparr>ao_userId := []\<rparr>) 20 (store1 None None)
     = ([], Inl (sdk_path_error []))
   \<and> txn_body env0 ''a1'' ao0 20 (store1 None None) = ([], Inl ''USER_NOT_FOUND'')
   \<and> txn_body env0 ''a1'' (ao0\<lparr>ao_itemId := ''a/b''\<rparr>) 20 (store1 (Some user0) None)
     = ([], Inl (sdk_path_error ''a/b''))
   \<and> txn_body env0 ''a1'' ao0 20 (store1 (Some user0) None) = ([], Inl ''ITEM_NOT_FOUND'')
   \<and> snd (txn_body env0 ''a1'' ao0 20
        (store1 (Some (user0\<lparr>u_walletBalance := Some 0\<rparr>))
                (Some (item0\<lparr>mi_quantity := Some 0, mi_available := Some False\<rparr>))))
      = Inl ''ITEM_UNAVAILABLE''
   \<and> snd (txn_body env0 ''a1'' ao0 20
        (store1 (Some (user0\<lparr>u_walletBalance := Some 0\<rparr>))
                (Some (item0\<lparr>mi_quantity := Some 1\<rparr>))))
      = Inl ''INSUFFICIENT_STOCK''
   \<and> snd (txn_body env0 ''a1'' ao0 20
        (store1 (Some (user0\<lparr>u_walletBalance := Some 19\<rparr>)) (Some item0)))
      = Inl ''INSUFFICIENT_BALANCE''
   \<and> snd (txn_body env0 ''a1'' ao0 20 (store1 (Some user0) (Some item0))) = Inr ()
   \<and> valid_doc_path ''u1'' \<and> doc_key ''u1'' = ''u1''"
proof -
  have v: "\<not> valid_doc_path ''a/b''" "valid_doc_path ''u1''" "doc_key ''u1'' = ''u1''"
    "valid_doc_path ''m1''" "doc_key ''m1'' = ''m1''"
    by (simp_all add: valid_doc_path_def doc_key_def split_path_def)
  note t = validation_order [where e = env0 and k = "''a1''"]
  show ?thesis
    using
      t [where s = "store1 None None" and ao = "ao0\<lparr>ao_userId := []\<rparr>"]
      t [where s = "store1 None None" and ao = ao0]
      t [where s = "store1 (Some user0) None" and ao = "ao0\<lparr>ao_itemId := ''a/b''\<rparr>"]
      t [where s = "store1 (Some user0) None" and ao = ao0]
      t [where s = "store1 (Some (user0\<lparr>u_walletBalance := Some 0\<rparr>))
        (Some (item0\<lparr>mi_quantity := Some 0, mi_available := Some False\<rparr>))" and ao = ao0]
      t [where s = "store1 (Some (user0\<lparr>u_walletBalance := Some 0\<rparr>))
        (Some (item0\<lparr>mi_quantity := Some 1\<rparr>))" and ao = ao0]
      t [where s = "store1 (Some (user0\<lparr>u_walletBalance := Some 19\<rparr>))
        (Some item0)" and ao = ao0]
      t [where s = "store1 (Some user0) (Some item0)" and ao = ao0]
    by (simp add: v store1_def store0_def ao0_def user0_def item0_def nullish_def env0_def)
qed

text \<open>
  C1. For a candidate that is due and not guarded, when the transaction body throws
  (in the read phase or in the validation phase) the store after the iteration is the
  store before it: no quantity, balance, order, wallet transaction, notification,
  execution log or auto-order field has changed. The iteration only counts the candidate
  as processed and failed and appends its error string. When the read phase throws
  (a missing document, or an id that \<^verbatim>\<open>doc\<close> rejects) the body has issued no write. In
  the three validation failures the body had issued two writes before throwing, the
  failure execution log and the failure tracking update of the auto order; they are
  dropped with the transaction.
\<close>

theorem failed_transaction_discarded:
  assumes "shouldRun ao (ist_day (ist e))"
    and "ao_lastExecutedDate ao \<noteq> JStr (ist_dateStr (ist e))"
    and "snd (txn_body e k ao (ao_itemPrice ao * ao_quantity ao) (db st)) = Inl err"
  shows "process_candidate e (k, ao) st =
           st\<lparr>processed := processed st + 1,
              errors := errors st @ [error_entry k err],
              failed := failed st + 1\<rparr>
    \<and> db (process_candidate e (k, ao) st) = db st
    \<and> ((fst (txn_body e k ao (ao_itemPrice ao * ao_quantity ao) (db st)) = []
          \<and> (err = ''USER_NOT_FOUND'' \<or> err = ''ITEM_NOT_FOUND''
             \<or> err = docPathError e (ao_userId ao) \<or> err = docPathError e (ao_itemId ao)))
       \<or> (\<exists>x reason. \<not> ex_success x \<and> ex_autoOrderId x = k \<and>
          fst (txn_body e k ao (ao_itemPrice ao * ao_quantity ao) (db st)) =
            [SetExecution x,
             UpdateAutoOrderFailed k (ist_dateStr (ist e)) (nowISO e) reason]))"
proof -
  let ?b = "txn_body e k ao (ao_itemPrice ao * ao_quantity ao) (db st)"
  obtain ws where b: "?b = (ws, Inl err)"
    using assms(3) by (cases ?b) simp
  have p: "process_candidate e (k, ao) st =
           st\<lparr>processed := processed st + 1,
              errors := errors st @ [error_entry k err],
              failed := failed st + 1\<rparr>"
    using process_candidate_failed [OF assms] .
  have w: "(ws = []
          \<and> (err = ''USER_NOT_FOUND'' \<or> err = ''ITEM_NOT_FOUND''
             \<or> err = docPathError e (ao_userId ao) \<or> err = docPathError e (ao_itemId ao)))
       \<or> (\<exists>x reason. \<not> ex_success x \<and> ex_autoOrderId x = k \<and>
          ws = [SetExecution x,
             UpdateAutoOrderFailed k (ist_dateStr (ist e)) (nowISO e) reason])"
    using txn_body_cases [of e k ao "ao_itemPrice ao * ao_quantity ao" "db st"]
      failure_writes_shape [of k e ao] b
    by (elim disjE exE) (simp_all, metis)
  show ?thesis using p w b by simp
qed

theorem failed_transaction_discarded_witness:
  "shouldRun ao0 (ist_day (ist env0))
   \<and> ao_lastExecutedDate ao0 \<noteq> JStr (ist_dateStr (ist env0))
   \<and> snd (txn_body env0 ''a1'' ao0 20
        (store1 (Some user0) (Some (item0\<lparr>mi_quantity := Some 1\<rparr>))))
      = Inl ''INSUFFICIENT_STOCK''
   \<and> length (fst (txn_body env0 ''a1'' ao0 20
        (store1 (Some user0) (Some (item0\<lparr>mi_quantity := Some 1\<rparr>))))) = 2
   \<and> process_candidate env0 (''a1'', ao0)
        (st0\<lparr>db := store1 (Some user0) (Some (item0\<lparr>mi_quantity := Some 1\<rparr>))\<rparr>)
      = st0\<lparr>db := store1 (Some user0) (Some (item0\<lparr>mi_quantity := Some 1\<rparr>)),
            processed := 1, errors := [''a1: insufficient stock''], failed := 1\<rparr>"
proof -
  let ?st = "st0\<lparr>db := store1 (Some user0) (Some (item0\<lparr>mi_quantity := Some 1\<rparr>))\<rparr>"
  have h1: "shouldRun ao0 (ist_day (ist env0))"
    by (simp add: shouldRun_def ao0_def)
  have h2: "ao_lastExecutedDate ao0 \<noteq> JStr (ist_dateStr (ist env0))"
    by (simp add: ao0_def)
  have h3: "snd (txn_body env0 ''a1'' ao0 (ao_itemPrice ao0 * ao_quantity ao0) (db ?st))
      = Inl ''INSUFFICIENT_STOCK''"
    by (simp add: txn_body_def doc_ref_valid plain_id store1_def store0_def ao0_def user0_def item0_def nullish_def)
  show ?thesis
    using h1 h2 h3 failed_transaction_discarded [OF h1 h2 h3]
    by (auto simp: st0_def error_entry_def ao0_def env0_def sdk_path_error_def)
qed

text \<open>
  C2. For a candidate whose transaction commits (the iteration counts it as
  succeeded), with \<open>u\<close>, \<open>m\<close> and \<open>d\<close> the user, menu item and auto-order documents
  before (the first two at the references that \<^verbatim>\<open>doc\<close> builds from \<^verbatim>\<open>userId\<close> and
  \<^verbatim>\<open>itemId\<close>): the menu item has quantity old stock minus requested quantity, \<^verbatim>\<open>available\<close>
  recomputed as new stock > 0; the user has balance old balance minus
  \<^verbatim>\<open>itemPrice * quantity\<close>; exactly one order (that total, payment mode Wallet, status
  pending, \<^verbatim>\<open>autoOrderId\<close> of the candidate), one debit wallet transaction of the total,
  one notification and one successful execution log (order id, stock before and after,
  amount deducted) have been added; the auto order has \<^verbatim>\<open>lastExecutedDate\<close> today and
  \<^verbatim>\<open>totalExecutions\<close> incremented, and the other auto orders are as before.
\<close>

theorem commit_post_state:
  assumes "succeeded (process_candidate e (k, ao) st) = succeeded st + 1"
  shows "\<exists>u m d. users (db st) (doc_key (ao_userId ao)) = Some u
     \<and> menuItems (db st) (doc_key (ao_itemId ao)) = Some m
     \<and> map_of (autoOrders (db st)) k = Some d
     \<and> (let s = db st;
             s' = db (process_candidate e (k, ao) st);
             oldStock = nullish (mi_quantity m) 0;
             oldBalance = nullish (u_walletBalance u) 0;
             newStock = oldStock - ao_quantity ao;
             amount = ao_itemPrice ao * ao_quantity ao;
             orderId = generateOrderId e k
         in
           menuItems s' = (menuItems s)(doc_key (ao_itemId ao) \<mapsto>
             m\<lparr>mi_quantity := Some newStock,
               mi_available := Some (newStock > 0),
               mi_updatedAt := Some (nowISO e)\<rparr>)
         \<and> users s' = (users s)(doc_key (ao_userId ao) \<mapsto>
             u\<lparr>u_walletBalance := Some (oldBalance - amount)\<rparr>)
         \<and> (\<exists>ord. orders s' = orders s @ [ord]
               \<and> o_orderId ord = orderId \<and> o_userId ord = ao_userId ao
               \<and> o_total ord = amount \<and> o_paymentMode ord = ''Wallet''
               \<and> o_status ord = ''pending'' \<and> o_autoOrderId ord = k)
         \<and> (\<exists>w. walletTransactions s' = walletTransactions s @ [w]
               \<and> wt_userId w = ao_userId ao \<and> wt_type w = ''debit'' \<and> wt_amount w = amount)
         \<and> (\<exists>n. notifications s' = notifications s @ [n]
               \<and> n_userId n = ao_userId ao \<and> n_orderId n = orderId)
         \<and> (\<exists>x. autoOrderExecutions s' = autoOrderExecutions s @ [x]
               \<and> ex_success x \<and> ex_autoOrderId x = k \<and> ex_orderId x = Some orderId
               \<and> ex_stockBefore x = Some oldStock \<and> ex_stockAfter x = Some newStock
               \<and> ex_amountDeducted x = Some amount)
         \<and> map_of (autoOrders s') k = Some (d\<lparr>
               ao_lastExecutedDate := JStr (ist_dateStr (ist e)),
               ao_lastExecutedAt := Some (nowISO e),
               ao_totalExecutions := Some (nullish (ao_totalExecutions d) 0 + 1),
               ao_updatedAt := Some (nowISO e)\<rparr>)
         \<and> (\<forall>k'. k' \<noteq> k \<longrightarrow> map_of (autoOrders s') k' = map_of (autoOrders s) k')
         \<and> processed (process_candidate e (k, ao) st) = processed st + 1
         \<and> failed (process_candidate e (k, ao) st) = failed st
         \<and> errors (process_candidate e (k, ao) st) = errors st)"
proof -
  let ?tc = "ao_itemPrice ao * ao_quantity ao"
  obtain u m s' where u: "users (db st) (doc_key (ao_userId ao)) = Some u"
    and m: "menuItems (db st) (doc_key (ao_itemId ao)) = Some m"
    and c: "commit (success_writes e k ao (doc_key (ao_userId ao)) (doc_key (ao_itemId ao)) u ?tc (nullish (mi_quantity m) 0)) (db st) = Some s'"
    and p: "process_candidate e (k, ao) st =
            st\<lparr>processed := processed st + 1, db := s', succeeded := succeeded st + 1\<rparr>"
    using process_candidate_cases [of ao e k st] assms by auto
  have h: "has_doc k (autoOrders (db st))"
    using c commit_success_writes [OF u m, of e k ?tc "nullish (mi_quantity m) 0"]
    by (simp split: if_splits)
  then obtain d where d: "map_of (autoOrders (db st)) k = Some d"
    by (auto simp: has_doc_map_of)
  have s': "s' = the (commit (success_writes e k ao (doc_key (ao_userId ao)) (doc_key (ao_itemId ao)) u ?tc (nullish (mi_quantity m) 0)) (db st))"
    using c by simp
  show ?thesis
    apply (rule exI [of _ u], rule exI [of _ m], rule exI [of _ d])
    apply (simp only: u m d p Let_def)
    apply (simp add: s' commit_success_writes [OF u m] h map_of_update_doc d
        increment_nullish)
    done
qed

theorem commit_post_state_witness:
  "succeeded (process_candidate env0 (''a1'', ao0) st0) = succeeded st0 + 1
   \<and> menuItems (db (process_candidate env0 (''a1'', ao0) st0)) ''m1''
      = Some \<lparr>mi_quantity = Some 3, mi_available = Some True,
           mi_updatedAt = Some ''2024-01-02T03:30:00.000Z''\<rparr>
   \<and> users (db (process_candidate env0 (''a1'', ao0) st0)) ''u1''
      = Some (user0\<lparr>u_walletBalance := Some 80\<rparr>)
   \<and> map o_total (orders (db (process_candidate env0 (''a1'', ao0) st0))) = [20]
   \<and> map wt_amount (walletTransactions (db (process_candidate env0 (''a1'', ao0) st0))) = [20]
   \<and> length (notifications (db (process_candidate env0 (''a1'', ao0) st0))) = 1
   \<and> map ex_stockAfter (autoOrderExecutions (db (process_candidate env0 (''a1'', ao0) st0)))
      = [Some 3]
   \<and> map_of (autoOrders (db (process_candidate env0 (''a1'', ao0) st0))) ''a1''
      = Some (ao0\<lparr>ao_lastExecutedDate := JStr ''2024-01-02'',
           ao_lastExecutedAt := Some ''2024-01-02T03:30:00.000Z'',
           ao_totalExecutions := Some 1,
           ao_updatedAt := Some ''2024-01-02T03:30:00.000Z''\<rparr>)"
proof -
  have h: "succeeded (process_candidate env0 (''a1'', ao0) st0) = succeeded st0 + 1"
    by (simp add: process_candidate_def shouldRun_def runTransaction_def txn_body_def doc_ref_valid plain_id
        success_writes_def Let_def nullish_def env0_def ao0_def st0_def store0_def
        user0_def item0_def)
  have s: "users (db st0) (doc_key (ao_userId ao0)) = Some user0"
    "menuItems (db st0) (doc_key (ao_itemId ao0)) = Some item0"
    "map_of (autoOrders (db st0)) ''a1'' = Some ao0"
    "orders (db st0) = []" "walletTransactions (db st0) = []" "notifications (db st0) = []"
    "autoOrderExecutions (db st0) = []"
    by (simp_all add: st0_def store0_def ao0_def plain_id)
  obtain u m d where "users (db st0) (doc_key (ao_userId ao0)) = Some u
     \<and> menuItems (db st0) (doc_key (ao_itemId ao0)) = Some m
     \<and> map_of (autoOrders (db st0)) ''a1'' = Some d
     \<and> (let s = db st0;
             s' = db (process_candidate env0 (''a1'', ao0) st0);
             oldStock = nullish (mi_quantity m) 0;
             oldBalance = nullish (u_walletBalance u) 0;
             newStock = oldStock - ao_quantity ao0;
             amount = ao_itemPrice ao0 * ao_quantity ao0;
             orderId = generateOrderId env0 ''a1''
         in
           menuItems s' = (menuItems s)(doc_key (ao_itemId ao0) \<mapsto>
             m\<lparr>mi_quantity := Some newStock,
               mi_available := Some (newStock > 0),
               mi_updatedAt := Some (nowISO env0)\<rparr>)
         \<and> users s' = (users s)(doc_key (ao_userId ao0) \<mapsto>
             u\<lparr>u_walletBalance := Some (oldBalance - amount)\<rparr>)
         \<and> (\<exists>ord. orders s' = orders s @ [ord]
               \<and> o_orderId ord = orderId \<and> o_userId ord = ao_userId ao0
               \<and> o_total ord = amount \<and> o_paymentMode ord = ''Wallet''
               \<and> o_status ord = ''pending'' \<and> o_autoOrderId ord = ''a1'')
         \<and> (\<exists>w. walletTransactions s' = walletTransactions s @ [w]
               \<and> wt_userId w = ao_userId ao0 \<and> wt_type w = ''debit'' \<and> wt_amount w = amount)
         \<and> (\<exists>n. notifications s' = notifications s @ [n]
               \<and> n_userId n = ao_userId ao0 \<and> n_orderId n = orderId)
         \<and> (\<exists>x. autoOrderExecutions s' = autoOrderExecutions s @ [x]
               \<and> ex_success x \<and> ex_autoOrderId x = ''a1'' \<and> ex_orderId x = Some orderId
               \<and> ex_stockBefore x = Some oldStock \<and> ex_stockAfter x = Some newStock
               \<and> ex_amountDeducted x = Some amount)
         \<and> map_of (autoOrders s') ''a1'' = Some (d\<lparr>
               ao_lastExecutedDate := JStr (ist_dateStr (ist env0)),
               ao_lastExecutedAt := Some (nowISO env0),
               ao_totalExecutions := Some (nullish (ao_totalExecutions d) 0 + 1),
               ao_updatedAt := Some (nowISO env0)\<rparr>)
         \<and> (\<forall>k'. k' \<noteq> ''a1'' \<longrightarrow> map_of (autoOrders s') k' = map_of (autoOrders s) k')
         \<and> processed (process_candidate env0 (''a1'', ao0) st0) = processed st0 + 1
         \<and> failed (process_candidate env0 (''a1'', ao0) st0) = failed st0
         \<and> errors (process_candidate env0 (''a1'', ao0) st0) = errors st0)"
    using commit_post_state [OF h] by blast
  then show ?thesis
    using h s
    by (clarsimp simp: Let_def nullish_def user0_def item0_def ao0_def env0_def plain_id)
qed

text \<open>
  C10 (as stated, refuted). The claim lets a missing \<^verbatim>\<open>walletBalance\<close> with a positive
  total fail with insufficient balance, and a missing \<^verbatim>\<open>quantity\<close> with a positive
  requested quantity fail with insufficient stock, whatever the other fields are. In a
  run over one due candidate (price 10, quantity 2) whose user document has no
  \<^verbatim>\<open>walletBalance\<close>, the run reports \<^verbatim>\<open>item unavailable\<close> when the menu item has
  \<^verbatim>\<open>available\<close> \<^verbatim>\<open>false\<close>, and \<^verbatim>\<open>insufficient stock\<close> when the menu item has stock 1;
  and for a menu item with no \<^verbatim>\<open>quantity\<close> and \<^verbatim>\<open>available\<close> \<^verbatim>\<open>false\<close> it reports
  \<^verbatim>\<open>item unavailable\<close>: an earlier check of the validation decides.
\<close>

theorem lenient_defaults_counterexample:
  "u_walletBalance (user0\<lparr>u_walletBalance := None\<rparr>) = None
   \<and> 0 < ao_itemPrice ao0 * ao_quantity ao0
   \<and> r_errors (fst (executeAutoOrders env0 None
        (store1 (Some (user0\<lparr>u_walletBalance := None\<rparr>))
                (Some (item0\<lparr>mi_available := Some False\<rparr>)))))
      = [''a1: item unavailable'']
   \<and> r_errors (fst (executeAutoOrders env0 None
        (store1 (Some (user0\<lparr>u_walletBalance := None\<rparr>))
                (Some (item0\<lparr>mi_quantity := Some 1\<rparr>)))))
      = [''a1: insufficient stock'']
   \<and> mi_quantity (item0\<lparr>mi_quantity := None, mi_available := Some False\<rparr>) = None
   \<and> 0 < ao_quantity ao0
   \<and> r_errors (fst (executeAutoOrders env0 None
        (store1 (Some user0)
                (Some (item0\<lparr>mi_quantity := None, mi_available := Some False\<rparr>)))))
      = [''a1: item unavailable'']"
proof -
  note b = run_store1_basics
  have v: "\<And>x y. snd (txn_body env0 ''a1'' ao0 (ao_itemPrice ao0 * ao_quantity ao0)
        (store1 (Some x) (Some y))) =
      (if mi_available y = Some False then Inl ''ITEM_UNAVAILABLE''
       else if nullish (mi_quantity y) 0 < 2 then Inl ''INSUFFICIENT_STOCK''
       else if nullish (u_walletBalance x) 0 < 20 then Inl ''INSUFFICIENT_BALANCE''
       else Inr ())"
    by (simp add: txn_body_result store1_def ao0_def plain_id)
  have r: "\<And>x y err. snd (txn_body env0 ''a1'' ao0 (ao_itemPrice ao0 * ao_quantity ao0)
        (store1 (Some x) (Some y))) = Inl err \<Longrightarrow>
      r_errors (fst (executeAutoOrders env0 None (store1 (Some x) (Some y))))
        = [error_entry ''a1'' err]"
    using single_candidate_fails [OF b(1,2) snapshot_store1 b(3,4)] by simp
  have 1: "r_errors (fst (executeAutoOrders env0 None
        (store1 (Some (user0\<lparr>u_walletBalance := None\<rparr>))
                (Some (item0\<lparr>mi_available := Some False\<rparr>)))))
      = [''a1: item unavailable'']"
    by (subst r [where err = "''ITEM_UNAVAILABLE''"])
      (simp_all add: v error_entry_def)
  have 2: "r_errors (fst (executeAutoOrders env0 None
        (store1 (Some (user0\<lparr>u_walletBalance := None\<rparr>))
                (Some (item0\<lparr>mi_quantity := Some 1\<rparr>)))))
      = [''a1: insufficient stock'']"
    by (subst r [where err = "''INSUFFICIENT_STOCK''"])
      (simp_all add: v error_entry_def item0_def nullish_def)
  have 3: "r_errors (fst (executeAutoOrders env0 None
        (store1 (Some user0)
                (Some (item0\<lparr>mi_quantity := None, mi_available := Some False\<rparr>)))))
      = [''a1: item unavailable'']"
    by (subst r [where err = "''ITEM_UNAVAILABLE''"])
      (simp_all add: v error_entry_def)
  show ?thesis
    using 1 2 3 by (simp add: ao0_def)
qed

text \<open>
  C10 (amended). At \<^verbatim>\<open>executeAutoOrders\<close>, missing fields default leniently during
  validation. The result of a run does not change when a user document without
  \<^verbatim>\<open>walletBalance\<close> is given the balance 0, when a menu item without \<^verbatim>\<open>quantity\<close> is
  given the stock 0, or when a menu item without \<^verbatim>\<open>available\<close> is given \<^verbatim>\<open>available\<close>
  true. Moreover, for a selected candidate that is due and not guarded, whose ids are
  document paths and whose user document \<open>u\<close> and menu item \<open>m\<close> exist when its turn
  comes (after the candidates \<open>pre\<close> before it), the run counts one more failure and
  appends the candidate's entry right after the entries of the earlier candidates:
  \<^verbatim>\<open>insufficient balance\<close> when \<open>u\<close> has no \<^verbatim>\<open>walletBalance\<close>, the total is positive,
  the item is not blocked and the stock suffices; \<^verbatim>\<open>insufficient stock\<close> when \<open>m\<close> has
  no \<^verbatim>\<open>quantity\<close>, the requested quantity is positive and the item is not blocked;
  \<^verbatim>\<open>item unavailable\<close> when \<^verbatim>\<open>available\<close> is \<^verbatim>\<open>false\<close>. Only an explicit
  \<^verbatim>\<open>false\<close> blocks: with \<^verbatim>\<open>available\<close> missing or true, enough stock and enough
  balance, the run counts one more success.
\<close>

theorem lenient_defaults:
  assumes "adminDbFailure e = None" and "queryFailure e = None"
    and "snapshot (queryTime e overrideTime) s = pre @ (k, ao) # cs"
    and "shouldRun ao (ist_day (ist e))"
    and "ao_lastExecutedDate ao \<noteq> JStr (ist_dateStr (ist e))"
    and "valid_doc_path (ao_userId ao)" and "valid_doc_path (ao_itemId ao)"
    and "users (db (process_all e pre (start s))) (doc_key (ao_userId ao)) = Some u"
    and "menuItems (db (process_all e pre (start s))) (doc_key (ao_itemId ao)) = Some m"
  shows
    "(\<forall>a v. users s a = Some v \<and> u_walletBalance v = None \<longrightarrow>
        fst (executeAutoOrders e overrideTime
               (s\<lparr>users := (users s)(a \<mapsto> v\<lparr>u_walletBalance := Some 0\<rparr>)\<rparr>))
          = fst (executeAutoOrders e overrideTime s))
     \<and> (\<forall>i w. menuItems s i = Some w \<and> mi_quantity w = None \<longrightarrow>
        fst (executeAutoOrders e overrideTime
               (s\<lparr>menuItems := (menuItems s)(i \<mapsto> w\<lparr>mi_quantity := Some 0\<rparr>)\<rparr>))
          = fst (executeAutoOrders e overrideTime s))
     \<and> (\<forall>i w. menuItems s i = Some w \<and> mi_available w = None \<longrightarrow>
        fst (executeAutoOrders e overrideTime
               (s\<lparr>menuItems := (menuItems s)(i \<mapsto> w\<lparr>mi_available := Some True\<rparr>)\<rparr>))
          = fst (executeAutoOrders e overrideTime s))
     \<and> (u_walletBalance u = None \<and> 0 < ao_itemPrice ao * ao_quantity ao
          \<and> mi_available m \<noteq> Some False \<and> ao_quantity ao \<le> nullish (mi_quantity m) 0 \<longrightarrow>
        failed (process_all e pre (start s)) + 1
          \<le> r_failed (fst (executeAutoOrders e overrideTime s))
        \<and> (\<exists>es. r_errors (fst (executeAutoOrders e overrideTime s))
              = errors (process_all e pre (start s)) @ (k @ '': insufficient balance'') # es))
     \<and> (mi_quantity m = None \<and> 0 < ao_quantity ao \<and> mi_available m \<noteq> Some False \<longrightarrow>
        failed (process_all e pre (start s)) + 1
          \<le> r_failed (fst (executeAutoOrders e overrideTime s))
        \<and> (\<exists>es. r_errors (fst (executeAutoOrders e overrideTime s))
              = errors (process_all e pre (start s)) @ (k @ '': insufficient stock'') # es))
     \<and> (mi_available m = Some False \<longrightarrow>
        failed (process_all e pre (start s)) + 1
          \<le> r_failed (fst (executeAutoOrders e overrideTime s))
        \<and> (\<exists>es. r_errors (fst (executeAutoOrders e overrideTime s))
              = errors (process_all e pre (start s)) @ (k @ '': item unavailable'') # es))
     \<and> (mi_available m \<noteq> Some False \<and> ao_quantity ao \<le> nullish (mi_quantity m) 0
          \<and> ao_itemPrice ao * ao_quantity ao \<le> nullish (u_walletBalance u) 0 \<longrightarrow>
        succeeded (process_all e pre (start s)) + 1
          \<le> r_succeeded (fst (executeAutoOrders e overrideTime s)))"
proof -
  let ?tc = "ao_itemPrice ao * ao_quantity ao"
  let ?st = "process_all e pre (start s)"
  have v: "snd (txn_body e k ao ?tc (db ?st)) =
      (if mi_available m = Some False then Inl ''ITEM_UNAVAILABLE''
       else if nullish (mi_quantity m) 0 < ao_quantity ao then Inl ''INSUFFICIENT_STOCK''
       else if nullish (u_walletBalance u) 0 < ?tc then Inl ''INSUFFICIENT_BALANCE''
       else Inr ())"
    by (simp add: txn_body_result assms(6,7,8,9))
  note f = candidate_fails [OF assms(1,2,3,4,5)]
  have 1: "\<forall>a v. users s a = Some v \<and> u_walletBalance v = None \<longrightarrow>
        fst (executeAutoOrders e overrideTime
               (s\<lparr>users := (users s)(a \<mapsto> v\<lparr>u_walletBalance := Some 0\<rparr>)\<rparr>))
          = fst (executeAutoOrders e overrideTime s)"
    by (intro allI impI, elim conjE, rule executeAutoOrders_eqv, rule default_balance_eqv)
  have 2: "\<forall>i w. menuItems s i = Some w \<and> mi_quantity w = None \<longrightarrow>
        fst (executeAutoOrders e overrideTime
               (s\<lparr>menuItems := (menuItems s)(i \<mapsto> w\<lparr>mi_quantity := Some 0\<rparr>)\<rparr>))
          = fst (executeAutoOrders e overrideTime s)"
    by (intro allI impI, elim conjE, rule executeAutoOrders_eqv, rule default_quantity_eqv)
  have 3: "\<forall>i w. menuItems s i = Some w \<and> mi_available w = None \<longrightarrow>
        fst (executeAutoOrders e overrideTime
               (s\<lparr>menuItems := (menuItems s)(i \<mapsto> w\<lparr>mi_available := Some True\<rparr>)\<rparr>))
          = fst (executeAutoOrders e overrideTime s)"
    by (intro allI impI, elim conjE, rule executeAutoOrders_eqv, rule default_available_eqv)
  have 4: "u_walletBalance u = None \<and> 0 < ?tc
          \<and> mi_available m \<noteq> Some False \<and> ao_quantity ao \<le> nullish (mi_quantity m) 0 \<longrightarrow>
        failed ?st + 1 \<le> r_failed (fst (executeAutoOrders e overrideTime s))
        \<and> (\<exists>es. r_errors (fst (executeAutoOrders e overrideTime s))
              = errors ?st @ (k @ '': insufficient balance'') # es)"
    using f [of "''INSUFFICIENT_BALANCE''"] by (simp add: v error_entry_def nullish_def)
  have 5: "mi_quantity m = None \<and> 0 < ao_quantity ao \<and> mi_available m \<noteq> Some False \<longrightarrow>
        failed ?st + 1 \<le> r_failed (fst (executeAutoOrders e overrideTime s))
        \<and> (\<exists>es. r_errors (fst (executeAutoOrders e overrideTime s))
              = errors ?st @ (k @ '': insufficient stock'') # es)"
    using f [of "''INSUFFICIENT_STOCK''"] by (simp add: v error_entry_def nullish_def)
  have 6: "mi_available m = Some False \<longrightarrow>
        failed ?st + 1 \<le> r_failed (fst (executeAutoOrders e overrideTime s))
        \<and> (\<exists>es. r_errors (fst (executeAutoOrders e overrideTime s))
              = errors ?st @ (k @ '': item unavailable'') # es)"
    using f [of "''ITEM_UNAVAILABLE''"] by (simp add: v error_entry_def)
  have 7: "mi_available m \<noteq> Some False \<and> ao_quantity ao \<le> nullish (mi_quantity m) 0
          \<and> ?tc \<le> nullish (u_walletBalance u) 0 \<longrightarrow>
        succeeded ?st + 1 \<le> r_succeeded (fst (executeAutoOrders e overrideTime s))"
    using candidate_commits [OF assms(1,2,3,4,5)] by (simp add: v)
  show ?thesis
    using 1 2 3 4 5 6 7 by (intro conjI)
qed


theorem lenient_defaults_witness:
  "snapshot (queryTime env0 None) (store1 (Some (user0\<lparr>u_walletBalance := None\<rparr>)) (Some item0))
     = [] @ (''a1'', ao0) # []
   \<and> users (db (process_all env0 []
        (start (store1 (Some (user0\<lparr>u_walletBalance := None\<rparr>)) (Some item0)))))
        (doc_key (ao_userId ao0)) = Some (user0\<lparr>u_walletBalance := None\<rparr>)
   \<and> fst (executeAutoOrders env0 None
        (store1 (Some (user0\<lparr>u_walletBalance := Some 0\<rparr>)) (Some item0)))
     = fst (executeAutoOrders env0 None
        (store1 (Some (user0\<lparr>u_walletBalance := None\<rparr>)) (Some item0)))
   \<and> 1 \<le> r_failed (fst (executeAutoOrders env0 None
        (store1 (Some (user0\<lparr>u_walletBalance := None\<rparr>)) (Some item0))))
   \<and> (\<exists>es. r_errors (fst (executeAutoOrders env0 None
        (store1 (Some (user0\<lparr>u_walletBalance := None\<rparr>)) (Some item0))))
     = ''a1: insufficient balance'' # es)
   \<and> (\<exists>es. r_errors (fst (executeAutoOrders env0 None
        (store1 (Some user0) (Some (item0\<lparr>mi_quantity := None, mi_available := None\<rparr>)))))
     = ''a1: insufficient stock'' # es)
   \<and> 1 \<le> r_succeeded (fst (executeAutoOrders env0 None
        (store1 (Some user0) (Some (item0\<lparr>mi_available := None\<rparr>)))))
   \<and> (\<exists>es. r_errors (fst (executeAutoOrders env0 None
        (store1 (Some user0) (Some (item0\<lparr>mi_available := Some False\<rparr>)))))
     = ''a1: item unavailable'' # es)"
proof -
  let ?u = "user0\<lparr>u_walletBalance := None\<rparr>"
  let ?m1 = "item0\<lparr>mi_quantity := None, mi_available := None\<rparr>"
  let ?m2 = "item0\<lparr>mi_available := None\<rparr>"
  let ?m3 = "item0\<lparr>mi_available := Some False\<rparr>"
  note b = run_store1_basics
  have g: "\<And>x y. snapshot (queryTime env0 None) (store1 x y) = [] @ (''a1'', ao0) # []"
    by (simp add: snapshot_store1)
  have su: "\<And>x y. users (db (process_all env0 [] (start (store1 (Some x) y))))
        (doc_key (ao_userId ao0)) = Some x"
    and sm: "\<And>x y. menuItems (db (process_all env0 [] (start (store1 x (Some y)))))
        (doc_key (ao_itemId ao0)) = Some y"
    by (simp_all add: start_def b(7,8) store1_def)
  note l = lenient_defaults [where e = env0 and overrideTime = None and k = "''a1''"
      and ao = ao0 and pre = "[]" and cs = "[]"]
  have d: "\<And>x y z. (store1 (Some x) y)\<lparr>users := (users (store1 (Some x) y))(''u1'' \<mapsto> z)\<rparr>
      = store1 (Some z) y"
    by (simp add: store1_def)
  have c: "0 < ao_itemPrice ao0 * ao_quantity ao0" "0 < ao_quantity ao0"
    "ao_quantity ao0 \<le> nullish (mi_quantity item0) 0"
    "ao_quantity ao0 \<le> nullish (mi_quantity ?m2) 0"
    "ao_itemPrice ao0 * ao_quantity ao0 \<le> nullish (u_walletBalance user0) 0"
    "mi_available item0 \<noteq> Some False"
    by (simp_all add: ao0_def item0_def user0_def nullish_def)
  have "users (store1 (Some ?u) (Some item0)) ''u1'' = Some ?u"
    by (simp add: store1_def)
  then have i0: "fst (executeAutoOrders env0 None (store1 (Some (?u\<lparr>u_walletBalance := Some 0\<rparr>)) (Some item0)))
      = fst (executeAutoOrders env0 None (store1 (Some ?u) (Some item0)))"
    using l [where s = "store1 (Some ?u) (Some item0)" and u = ?u and m = item0,
        OF b(1,2) g b(3,4,5,6) su sm,
        THEN conjunct1, rule_format, where a = "''u1''" and v = ?u]
    by (simp add: d)
  have i1: "1 \<le> r_failed (fst (executeAutoOrders env0 None (store1 (Some ?u) (Some item0))))
    \<and> (\<exists>es. r_errors (fst (executeAutoOrders env0 None (store1 (Some ?u) (Some item0))))
          = ''a1: insufficient balance'' # es)"
    using l [where s = "store1 (Some ?u) (Some item0)" and u = ?u and m = item0,
        OF b(1,2) g b(3,4,5,6) su sm,
        THEN conjunct2, THEN conjunct2, THEN conjunct2, THEN conjunct1] c
    by (simp add: start_def)
  have i2: "\<exists>es. r_errors (fst (executeAutoOrders env0 None (store1 (Some user0) (Some ?m1))))
          = ''a1: insufficient stock'' # es"
    using l [where s = "store1 (Some user0) (Some ?m1)" and u = user0 and m = ?m1,
        OF b(1,2) g b(3,4,5,6) su sm,
        THEN conjunct2, THEN conjunct2, THEN conjunct2, THEN conjunct2, THEN conjunct1] c
    by (simp add: start_def)
  have i3: "1 \<le> r_succeeded (fst (executeAutoOrders env0 None (store1 (Some user0) (Some ?m2))))"
    using l [where s = "store1 (Some user0) (Some ?m2)" and u = user0 and m = ?m2,
        OF b(1,2) g b(3,4,5,6) su sm,
        THEN conjunct2, THEN conjunct2, THEN conjunct2, THEN conjunct2, THEN conjunct2,
        THEN conjunct2] c
    by (simp add: start_def)
  have i4: "\<exists>es. r_errors (fst (executeAutoOrders env0 None (store1 (Some user0) (Some ?m3))))
          = ''a1: item unavailable'' # es"
    using l [where s = "store1 (Some user0) (Some ?m3)" and u = user0 and m = ?m3,
        OF b(1,2) g b(3,4,5,6) su sm,
        THEN conjunct2, THEN conjunct2, THEN conjunct2, THEN conjunct2, THEN conjunct2,
        THEN conjunct1]
    by (simp add: start_def)
  show ?thesis
    using i0 i1 i2 i3 i4 su [of ?u "Some item0"] by (simp add: snapshot_store1)
qed

subsection \<open>The empty selection\<close>

text \<open>
  C9. When the store is reachable and no auto order has status \<^verbatim>\<open>active\<close> and the
  queried time, the run returns at once: \<^verbatim>\<open>success\<close> is true, all five counters are 0,
  \<^verbatim>\<open>errors\<close> is empty, the message says that there are no active auto orders for the
  queried time, and the store is returned as it was.
\<close>

theorem no_candidates:
  assumes "adminDbFailure e = None" and "queryFailure e = None"
    and "\<forall>d \<in> set (autoOrders s).
           \<not> (ao_status (snd d) = ''active'' \<and> ao_time (snd d) = queryTime e overrideTime)"
  shows "executeAutoOrders e overrideTime s =
    (\<lparr>success = True,
      r_time = queryTime e overrideTime,
      r_day = ist_day (ist e),
      r_date = ist_dateStr (ist e),
      candidates = 0, r_skipped = 0, r_processed = 0, r_succeeded = 0, r_failed = 0,
      r_errors = [],
      r_message = Some (''No active auto orders for '' @ queryTime e overrideTime @ '' IST'')\<rparr>,
     s)"
proof -
  have "snapshot (queryTime e overrideTime) s = []"
    using assms(3) by (auto simp: snapshot_def filter_empty_conv)
  then show ?thesis
    using assms(1,2) by (simp add: executeAutoOrders_def)
qed

theorem no_candidates_witness:
  "adminDbFailure env0 = None \<and> queryFailure env0 = None
   \<and> map (\<lambda>d. (ao_status (snd d), ao_time (snd d))) (autoOrders store0)
       = [(''active'', ''09:00'')]
   \<and> queryTime env0 (Some ''10:00'') = ''10:00''
   \<and> executeAutoOrders env0 (Some ''10:00'') store0 =
    (\<lparr>success = True, r_time = ''10:00'', r_day = Tue, r_date = ''2024-01-02'',
      candidates = 0, r_skipped = 0, r_processed = 0, r_succeeded = 0, r_failed = 0,
      r_errors = [],
      r_message = Some ''No active auto orders for 10:00 IST''\<rparr>,
     store0)"
proof -
  have h1: "adminDbFailure env0 = None" and h2: "queryFailure env0 = None"
    by (simp_all add: env0_def)
  have h3: "\<forall>d \<in> set (autoOrders store0).
         \<not> (ao_status (snd d) = ''active'' \<and> ao_time (snd d) = queryTime env0 (Some ''10:00''))"
    by (simp add: store0_def ao0_def queryTime_def)
  show ?thesis
    using h1 h2 no_candidates [OF h1 h2 h3]
    by (simp add: queryTime_def env0_def store0_def ao0_def)
qed

subsection \<open>Run-level and candidate-level failures\<close>



subsection \<open>Stock and balance never go negative\<close>

text \<open>
  C8. A run never drives a balance or a stock negative: a user whose balance was not
  negative before the run has a balance that is not negative after it, and a menu item
  whose stock was not negative before the run has a stock that is not negative after
  it, whatever the candidates, their prices and their quantities are. The checks of
  stock and balance are made on the values that the same transaction decrements.
\<close>

theorem stock_and_balance_stay_nonnegative:
  "(nonneg_balance s a \<longrightarrow> nonneg_balance (snd (executeAutoOrders e overrideTime s)) a)
   \<and> (nonneg_stock s i \<longrightarrow> nonneg_stock (snd (executeAutoOrders e overrideTime s)) i)"
proof -
  let ?st = "\<lparr>db = s, processed = 0, succeeded = 0, failed = 0, skipped = 0, errors = []\<rparr>"
  have "snd (executeAutoOrders e overrideTime s) = s
    \<or> snd (executeAutoOrders e overrideTime s)
        = db (process_all e (snapshot (queryTime e overrideTime) s) ?st)"
    by (simp add: executeAutoOrders_def Let_def split: option.split)
  then show ?thesis
    using process_all_nonneg [of ?st a e "snapshot (queryTime e overrideTime) s" i]
    by auto
qed


theorem stock_and_balance_stay_nonnegative_witness:
  "nonneg_balance (store1 (Some (user0\<lparr>u_walletBalance := Some 20\<rparr>))
      (Some (item0\<lparr>mi_quantity := Some 2\<rparr>))) ''u1''
   \<and> nonneg_balance (snd (executeAutoOrders env0 None
        (store1 (Some (user0\<lparr>u_walletBalance := Some 20\<rparr>))
          (Some (item0\<lparr>mi_quantity := Some 2\<rparr>))))) ''u1''
   \<and> nonneg_stock (store1 (Some (user0\<lparr>u_walletBalance := Some 20\<rparr>))
      (Some (item0\<lparr>mi_quantity := Some 2\<rparr>))) ''m1''
   \<and> nonneg_stock (snd (executeAutoOrders env0 None
        (store1 (Some (user0\<lparr>u_walletBalance := Some 20\<rparr>))
          (Some (item0\<lparr>mi_quantity := Some 2\<rparr>))))) ''m1''
   \<and> map_option u_walletBalance (users (snd (executeAutoOrders env0 None
        (store1 (Some (user0\<lparr>u_walletBalance := Some 20\<rparr>))
          (Some (item0\<lparr>mi_quantity := Some 2\<rparr>))))) ''u1'') = Some (Some 0)
   \<and> map_option mi_quantity (menuItems (snd (executeAutoOrders env0 None
        (store1 (Some (user0\<lparr>u_walletBalance := Some 20\<rparr>))
          (Some (item0\<lparr>mi_quantity := Some 2\<rparr>))))) ''m1'') = Some (Some 0)"
proof -
  let ?s = "store1 (Some (user0\<lparr>u_walletBalance := Some 20\<rparr>))
      (Some (item0\<lparr>mi_quantity := Some 2\<rparr>))"
  have b: "nonneg_balance ?s ''u1''"
    by (simp add: nonneg_balance_def store1_def nullish_def)
  have q: "nonneg_stock ?s ''m1''"
    by (simp add: nonneg_stock_def store1_def nullish_def)
  have v: "map_option u_walletBalance (users (snd (executeAutoOrders env0 None ?s)) ''u1'')
      = Some (Some 0)
    \<and> map_option mi_quantity (menuItems (snd (executeAutoOrders env0 None ?s)) ''m1'')
      = Some (Some 0)"
    by (simp add: executeAutoOrders_def snapshot_def queryTime_def process_candidate_def
        shouldRun_def runTransaction_def txn_body_def doc_ref_valid plain_id success_writes_def Let_def nullish_def
        env0_def ao0_def store1_def store0_def user0_def item0_def)
  show ?thesis
    using b q v
      stock_and_balance_stay_nonnegative [of ?s "''u1''" env0 None "''m1''"]
    by simp
qed

subsection \<open>A second run on the same day\<close>

text \<open>
  C7. Let a run be followed by a second run with the same override time on the same
  day, on the store that the first run left (document ids are distinct, and neither run
  is fatal). The second run selects the same number of candidates; it skips every
  candidate that the first run skipped and every candidate that the first run executed,
  and processes only the candidates that failed in the first run:
  \<^verbatim>\<open>skipped\<close> of the second run is \<^verbatim>\<open>skipped + succeeded\<close> of the first, and
  \<^verbatim>\<open>processed\<close> of the second is \<^verbatim>\<open>failed\<close> of the first. When nothing failed in the
  first run, the second run leaves the store as it is. Every auto order that the first
  run changed is skipped by the second run without any change of state.
\<close>

theorem second_run_skips_executed:
  assumes "adminDbFailure e = None" and "queryFailure e = None"
    and "adminDbFailure e' = None" and "queryFailure e' = None"
    and "ist_day (ist e') = ist_day (ist e)"
    and "ist_dateStr (ist e') = ist_dateStr (ist e)"
    and "queryTime e' overrideTime = queryTime e overrideTime"
    and "distinct (map fst (autoOrders s))"
  shows "let r1 = fst (executeAutoOrders e overrideTime s);
             s1 = snd (executeAutoOrders e overrideTime s);
             r2 = fst (executeAutoOrders e' overrideTime s1);
             s2 = snd (executeAutoOrders e' overrideTime s1)
         in candidates r2 = candidates r1
          \<and> r_skipped r2 = r_skipped r1 + r_succeeded r1
          \<and> r_processed r2 = r_failed r1
          \<and> (r_failed r1 = 0 \<longrightarrow> s2 = s1)
          \<and> (\<forall>k d. map_of (autoOrders s1) k = Some d \<and> map_of (autoOrders s) k \<noteq> Some d
                \<longrightarrow> (\<forall>st. process_candidate e' (k, d) st = st\<lparr>skipped := skipped st + 1\<rparr>))"
proof -
  let ?qt = "queryTime e overrideTime"
  let ?cs = "snapshot ?qt s"
  let ?i = "\<lambda>s. \<lparr>db = s, processed = 0, succeeded = 0, failed = 0, skipped = 0, errors = []\<rparr>"
  let ?st1 = "process_all e ?cs (?i s)"
  let ?s1 = "db ?st1"
  let ?cs2 = "snapshot ?qt ?s1"
  let ?st2 = "process_all e' ?cs2 (?i ?s1)"
  have sk: "is_skipped e' = is_skipped e"
    using assms(5,6) by (simp add: is_skipped_def fun_eq_iff)
  have shape: "map (\<lambda>c. (fst c, ao_status (snd c), ao_time (snd c))) (autoOrders ?s1)
      = map (\<lambda>c. (fst c, ao_status (snd c), ao_time (snd c))) (autoOrders s)"
    using process_all_shape [of e ?cs "?i s"] by simp
  have "map fst (map (\<lambda>c. (fst c, ao_status (snd c), ao_time (snd c))) (autoOrders ?s1))
      = map fst (map (\<lambda>c. (fst c, ao_status (snd c), ao_time (snd c))) (autoOrders s))"
    using shape by simp
  then have keys: "map fst (autoOrders ?s1) = map fst (autoOrders s)"
    by (simp add: o_def)
  have d1: "distinct (map fst (autoOrders ?s1))"
    using keys assms(8) by simp
  have own1: "\<forall>c \<in> set (autoOrders ?s1). map_of (autoOrders ?s1) (fst c) = Some (snd c)"
    using d1 by auto
  have cs2: "?cs2 = map (\<lambda>c. (fst c, the (map_of (autoOrders ?s1) (fst c)))) ?cs"
    using snapshot_refresh [OF shape own1, of ?qt] by (simp add: snapshot_def)
  have dcs: "distinct (map fst ?cs)"
    using assms(8) by (simp add: snapshot_def distinct_map_filter)
  have own: "\<forall>c \<in> set ?cs. map_of (autoOrders (db (?i s))) (fst c) = Some (snd c)"
    using assms(8) by (auto simp: snapshot_def)
  have a: "skipped ?st1 + succeeded ?st1
      = length (filter (\<lambda>c. is_skipped e (the (map_of (autoOrders ?s1) (fst c)))) ?cs)"
    using process_all_own_docs [OF dcs own, of e] by simp
  have b: "skipped ?st2 = length (filter (\<lambda>c. is_skipped e (snd c)) ?cs2)"
    using process_all_skipped [of e' ?cs2 "?i ?s1"] by (simp add: sk)
  have "length (filter (\<lambda>c. is_skipped e (snd c)) ?cs2)
      = length (filter (\<lambda>c. is_skipped e (the (map_of (autoOrders ?s1) (fst c)))) ?cs)"
    by (simp add: cs2 filter_map o_def)
  then have skipped2: "skipped ?st2 = skipped ?st1 + succeeded ?st1"
    using a b by simp
  have len: "length ?cs2 = length ?cs"
    by (simp add: cs2)
  have c1: "skipped ?st1 + processed ?st1 = length ?cs"
    "processed ?st1 = succeeded ?st1 + failed ?st1"
    using process_all_counts [of e ?cs "?i s"] by simp_all
  have c2: "skipped ?st2 + processed ?st2 = length ?cs2"
    using process_all_counts [of e' ?cs2 "?i ?s1"] by simp
  have processed2: "processed ?st2 = failed ?st1"
    using c1 c2 skipped2 len by linarith
  have same: "failed ?st1 = 0 \<longrightarrow> db ?st2 = ?s1"
    using process_all_processed [of "?i ?s1" e' ?cs2] processed2 by simp
  have touched: "\<forall>k d. map_of (autoOrders ?s1) k = Some d \<and> map_of (autoOrders s) k \<noteq> Some d
      \<longrightarrow> (\<forall>st. process_candidate e' (k, d) st = st\<lparr>skipped := skipped st + 1\<rparr>)"
  proof (intro allI impI)
    fix k d st
    assume "map_of (autoOrders ?s1) k = Some d \<and> map_of (autoOrders s) k \<noteq> Some d"
    then have "ao_lastExecutedDate d = JStr (ist_dateStr (ist e))"
      using process_all_touched [of e ?cs "?i s" k d] by simp
    then show "process_candidate e' (k, d) st = st\<lparr>skipped := skipped st + 1\<rparr>"
      using assms(6) by (simp add: process_candidate_def)
  qed
  have r1: "executeAutoOrders e overrideTime s =
      (\<lparr>success = True, r_time = ?qt, r_day = ist_day (ist e), r_date = ist_dateStr (ist e),
        candidates = length ?cs, r_skipped = skipped ?st1, r_processed = processed ?st1,
        r_succeeded = succeeded ?st1, r_failed = failed ?st1, r_errors = errors ?st1,
        r_message = (if ?cs = []
            then Some (''No active auto orders for '' @ ?qt @ '' IST'') else None)\<rparr>, ?s1)"
    using executeAutoOrders_ok [OF assms(1,2), of overrideTime s] by (simp add: Let_def)
  have r2: "executeAutoOrders e' overrideTime ?s1 =
      (\<lparr>success = True, r_time = ?qt, r_day = ist_day (ist e'), r_date = ist_dateStr (ist e'),
        candidates = length ?cs2, r_skipped = skipped ?st2, r_processed = processed ?st2,
        r_succeeded = succeeded ?st2, r_failed = failed ?st2, r_errors = errors ?st2,
        r_message = (if ?cs2 = []
            then Some (''No active auto orders for '' @ ?qt @ '' IST'') else None)\<rparr>, db ?st2)"
    using executeAutoOrders_ok [OF assms(3,4), of overrideTime ?s1]
    by (simp add: Let_def assms(7))
  show ?thesis
    unfolding Let_def r1 fst_conv snd_conv r2
    using len skipped2 processed2 same touched by simp
qed

theorem second_run_skips_executed_witness:
  "distinct (map fst (autoOrders store2))
   \<and> queryTime env1 (Some ''09:00'') = queryTime env0 (Some ''09:00'')
   \<and> r_skipped (fst (executeAutoOrders env0 (Some ''09:00'') store2)) = 0
   \<and> r_succeeded (fst (executeAutoOrders env0 (Some ''09:00'') store2)) = 1
   \<and> r_failed (fst (executeAutoOrders env0 (Some ''09:00'') store2)) = 1
   \<and> candidates (fst (executeAutoOrders env1 (Some ''09:00'')
        (snd (executeAutoOrders env0 (Some ''09:00'') store2)))) = 2
   \<and> r_skipped (fst (executeAutoOrders env1 (Some ''09:00'')
        (snd (executeAutoOrders env0 (Some ''09:00'') store2)))) = 1
   \<and> r_processed (fst (executeAutoOrders env1 (Some ''09:00'')
        (snd (executeAutoOrders env0 (Some ''09:00'') store2)))) = 1"
proof -
  have h: "adminDbFailure env0 = None" "queryFailure env0 = None"
    "adminDbFailure env1 = None" "queryFailure env1 = None"
    "ist_day (ist env1) = ist_day (ist env0)"
    "ist_dateStr (ist env1) = ist_dateStr (ist env0)"
    "queryTime env1 (Some ''09:00'') = queryTime env0 (Some ''09:00'')"
    "distinct (map fst (autoOrders store2))"
    by (simp_all add: env0_def env1_def queryTime_def store2_def)
  show ?thesis
    using h(7,8) second_run_skips_executed [OF h]
    by (simp add: Let_def first_run_store2)
qed

end
